theory Spec2Isabelle
  imports Complex_Main "HOL-Library.AList" "HOL-Library.Multiset"
begin

section \<open>SimpleMove: the in-memory store and the ride lifecycle (server/storage.ts)\<close>

text \<open>
  The development embeds class \<open>MemStorage\<close> of \<open>server/storage.ts\<close> together with the
  entity types of the shared schema.

  Conventions of the embedding:
  \<^item> A JavaScript \<open>Map\<close> iterates in insertion order and \<open>set\<close> on a present key keeps
    the key's position, so a map is an association list updated with \<open>AList.update\<close>,
    read with \<open>map_of\<close>, and \<open>Array.from(m.values())\<close> is \<open>map snd\<close>.
  \<^item> A field that TypeScript types as \<open>T | null\<close> and that an insert object may leave
    out has three run-time shapes: left out (\<open>Undefined\<close>), \<open>Null\<close>, or a value.
    Equality on \<open>nullable\<close> is JavaScript's \<open>===\<close> on such fields.
  \<^item> A \<open>Date\<close> is its \<open>getTime()\<close>, an \<open>int\<close> of milliseconds; the result of
    \<open>new Date()\<close> is a parameter \<open>now\<close> of the operation that reads the clock.
    A timestamp field of a ride is either never assigned (\<open>None\<close>) or a \<open>Date\<close>.
  \<^item> Identifiers and counters are \<open>int\<close> (\<open>number\<close> without the 2^53 precision
    limit); latitudes, distances and fares are \<open>real\<close>: the store only copies them.
  \<^item> Every method is a function from the store (and its arguments) to the outcome and
    the store after the call; \<open>throw new Error(msg)\<close> is \<open>Inl\<close> of an error that
    carries \<open>msg\<close>, classed by the failure kinds NotFound, InvalidTransition and
    AlreadyActive. Each call runs to completion before the next one starts.
  \<^item> The field \<open>id\<close> of an entity is named \<open>user_id\<close>, \<open>vehicle_id\<close>, \<open>ride_id\<close>,
    \<open>rating_id\<close>; the parameter \<open>rideId\<close> of the ride operations is written \<open>rid\<close>.
  \<^item> The session store and the queries \<open>getVehicleByDriver\<close>, \<open>getRating\<close> and
    \<open>getUserRatings\<close> are left out: no operation on users or rides reads them.
\<close>

subsection \<open>Entities (shared schema)\<close>

datatype 'a nullable = Undefined | Null | Val 'a

datatype error = NotFound string | InvalidTransition string | AlreadyActive string

record insertUser =
  username :: string
  password :: string
  fullName :: string
  email :: string
  phone :: "string nullable"
  profilePicture :: "string nullable"
  userType :: "string nullable"
  language :: "string nullable"
  isOnline :: "bool nullable"

record insertVehicle =
  driverId :: int
  model :: string
  year :: string
  color :: string
  licensePlate :: string
  vehicleType :: "string nullable"

record insertRide =
  passengerId :: "int nullable"
  driverId :: "int nullable"
  originAddress :: string
  destinationAddress :: string
  originLat :: "real nullable"
  originLng :: "real nullable"
  destinationLat :: "real nullable"
  destinationLng :: "real nullable"
  status :: "string nullable"
  distance :: "real nullable"
  duration :: "int nullable"
  fare :: "real nullable"
  vehicleType :: "string nullable"
  paymentMethod :: "string nullable"

record insertRating =
  rideId :: "int nullable"
  fromUserId :: "int nullable"
  toUserId :: "int nullable"
  rating :: int
  comment :: "string nullable"

text \<open>\<open>Partial<User>\<close> and \<open>Partial<Vehicle>\<close>: \<open>None\<close> is a key that is left out.\<close>

record partialUser =
  user_id :: "int option"
  username :: "string option"
  password :: "string option"
  fullName :: "string option"
  email :: "string option"
  phone :: "string nullable option"
  profilePicture :: "string nullable option"
  userType :: "string nullable option"
  createdAt :: "int nullable option"
  language :: "string nullable option"
  isOnline :: "bool nullable option"

record partialVehicle =
  vehicle_id :: "int option"
  driverId :: "int option"
  model :: "string option"
  year :: "string option"
  color :: "string option"
  licensePlate :: "string option"
  vehicleType :: "string nullable option"

record vehicle =
  vehicle_id :: int
  driverId :: int
  model :: string
  year :: string
  color :: string
  licensePlate :: string
  vehicleType :: "string nullable"

record rating =
  rating_id :: int
  rideId :: "int nullable"
  fromUserId :: "int nullable"
  toUserId :: "int nullable"
  rating :: int
  comment :: "string nullable"
  createdAt :: "int nullable"

record user =
  user_id :: int
  username :: string
  password :: string
  fullName :: string
  email :: string
  phone :: "string nullable"
  profilePicture :: "string nullable"
  userType :: "string nullable"
  createdAt :: "int nullable"
  language :: "string nullable"
  isOnline :: "bool nullable"

record ride =
  ride_id :: int
  passengerId :: "int nullable"
  driverId :: "int nullable"
  originAddress :: string
  destinationAddress :: string
  originLat :: "real nullable"
  originLng :: "real nullable"
  destinationLat :: "real nullable"
  destinationLng :: "real nullable"
  status :: string
  requestedAt :: "int option"
  acceptedAt :: "int option"
  startedAt :: "int option"
  completedAt :: "int option"
  cancelledAt :: "int option"
  distance :: "real nullable"
  duration :: "int nullable"
  fare :: "real nullable"
  vehicleType :: "string nullable"
  paymentMethod :: "string nullable"

subsection \<open>The store\<close>

record store =
  usersMap :: "(int \<times> user) list"
  vehiclesMap :: "(int \<times> vehicle) list"
  ridesMap :: "(int \<times> ride) list"
  ratingsMap :: "(int \<times> rating) list"
  userIdCounter :: int
  vehicleIdCounter :: int
  rideIdCounter :: int
  ratingIdCounter :: int

text \<open>\<open>{...old, ...partial}\<close> on one field.\<close>

definition spread :: "'a \<Rightarrow> 'a option \<Rightarrow> 'a" where
  "spread old new = (case new of None \<Rightarrow> old | Some v \<Rightarrow> v)"

subsection \<open>User operations\<close>

definition getUser :: "store \<Rightarrow> int \<Rightarrow> user option" where
  "getUser s i = map_of (usersMap s) i"

definition getUserByUsername :: "store \<Rightarrow> string \<Rightarrow> user option" where
  "getUserByUsername s name =
     List.find (\<lambda>u. user.username u = name) (map snd (usersMap s))"

definition createUser :: "store \<Rightarrow> insertUser \<Rightarrow> int \<Rightarrow> user \<times> store" where
  "createUser s userData now =
     (let i = userIdCounter s;
          s1 = s\<lparr>userIdCounter := i + 1\<rparr>;
          u = \<lparr>user.user_id = i,
               user.username = insertUser.username userData,
               user.password = insertUser.password userData,
               user.fullName = insertUser.fullName userData,
               user.email = insertUser.email userData,
               user.phone = insertUser.phone userData,
               user.profilePicture = insertUser.profilePicture userData,
               user.userType = insertUser.userType userData,
               user.createdAt = Val now,
               user.language = insertUser.language userData,
               user.isOnline = insertUser.isOnline userData\<rparr>
      in (u, s1\<lparr>usersMap := AList.update i u (usersMap s1)\<rparr>))"

definition updateUser :: "store \<Rightarrow> int \<Rightarrow> partialUser \<Rightarrow> (error + user) \<times> store" where
  "updateUser s i userData =
     (case getUser s i of
        None \<Rightarrow> (Inl (NotFound ''User not found''), s)
      | Some u \<Rightarrow>
          (let updatedUser =
             \<lparr>user.user_id = spread (user.user_id u) (partialUser.user_id userData),
              user.username = spread (user.username u) (partialUser.username userData),
              user.password = spread (user.password u) (partialUser.password userData),
              user.fullName = spread (user.fullName u) (partialUser.fullName userData),
              user.email = spread (user.email u) (partialUser.email userData),
              user.phone = spread (user.phone u) (partialUser.phone userData),
              user.profilePicture =
                spread (user.profilePicture u) (partialUser.profilePicture userData),
              user.userType = spread (user.userType u) (partialUser.userType userData),
              user.createdAt = spread (user.createdAt u) (partialUser.createdAt userData),
              user.language = spread (user.language u) (partialUser.language userData),
              user.isOnline = spread (user.isOnline u) (partialUser.isOnline userData)\<rparr>
           in (Inr updatedUser, s\<lparr>usersMap := AList.update i updatedUser (usersMap s)\<rparr>)))"

definition updateUserStatus :: "store \<Rightarrow> int \<Rightarrow> bool \<Rightarrow> (error + user) \<times> store" where
  "updateUserStatus s i online =
     updateUser s i
       \<lparr>partialUser.user_id = None, partialUser.username = None,
        partialUser.password = None, partialUser.fullName = None,
        partialUser.email = None, partialUser.phone = None,
        partialUser.profilePicture = None, partialUser.userType = None,
        partialUser.createdAt = None, partialUser.language = None,
        partialUser.isOnline = Some (Val online)\<rparr>"

subsection \<open>Vehicle operations\<close>

definition getVehicle :: "store \<Rightarrow> int \<Rightarrow> vehicle option" where
  "getVehicle s i = map_of (vehiclesMap s) i"

definition createVehicle :: "store \<Rightarrow> insertVehicle \<Rightarrow> vehicle \<times> store" where
  "createVehicle s vehicleData =
     (let i = vehicleIdCounter s;
          s1 = s\<lparr>vehicleIdCounter := i + 1\<rparr>;
          v = \<lparr>vehicle.vehicle_id = i,
               vehicle.driverId = insertVehicle.driverId vehicleData,
               vehicle.model = insertVehicle.model vehicleData,
               vehicle.year = insertVehicle.year vehicleData,
               vehicle.color = insertVehicle.color vehicleData,
               vehicle.licensePlate = insertVehicle.licensePlate vehicleData,
               vehicle.vehicleType = insertVehicle.vehicleType vehicleData\<rparr>
      in (v, s1\<lparr>vehiclesMap := AList.update i v (vehiclesMap s1)\<rparr>))"

definition updateVehicle ::
  "store \<Rightarrow> int \<Rightarrow> partialVehicle \<Rightarrow> (error + vehicle) \<times> store" where
  "updateVehicle s i vehicleData =
     (case getVehicle s i of
        None \<Rightarrow> (Inl (NotFound ''Vehicle not found''), s)
      | Some v \<Rightarrow>
          (let updatedVehicle =
             \<lparr>vehicle.vehicle_id =
                spread (vehicle.vehicle_id v) (partialVehicle.vehicle_id vehicleData),
              vehicle.driverId =
                spread (vehicle.driverId v) (partialVehicle.driverId vehicleData),
              vehicle.model = spread (vehicle.model v) (partialVehicle.model vehicleData),
              vehicle.year = spread (vehicle.year v) (partialVehicle.year vehicleData),
              vehicle.color = spread (vehicle.color v) (partialVehicle.color vehicleData),
              vehicle.licensePlate =
                spread (vehicle.licensePlate v) (partialVehicle.licensePlate vehicleData),
              vehicle.vehicleType =
                spread (vehicle.vehicleType v) (partialVehicle.vehicleType vehicleData)\<rparr>
           in (Inr updatedVehicle,
               s\<lparr>vehiclesMap := AList.update i updatedVehicle (vehiclesMap s)\<rparr>)))"

subsection \<open>Rating operations\<close>

definition createRating :: "store \<Rightarrow> insertRating \<Rightarrow> int \<Rightarrow> rating \<times> store" where
  "createRating s ratingData now =
     (let i = ratingIdCounter s;
          s1 = s\<lparr>ratingIdCounter := i + 1\<rparr>;
          g = \<lparr>rating.rating_id = i,
               rating.rideId = insertRating.rideId ratingData,
               rating.fromUserId = insertRating.fromUserId ratingData,
               rating.toUserId = insertRating.toUserId ratingData,
               rating.rating = insertRating.rating ratingData,
               rating.comment = insertRating.comment ratingData,
               rating.createdAt = Val now\<rparr>
      in (g, s1\<lparr>ratingsMap := AList.update i g (ratingsMap s1)\<rparr>))"

subsection \<open>Ride queries\<close>

definition getRide :: "store \<Rightarrow> int \<Rightarrow> ride option" where
  "getRide s i = map_of (ridesMap s) i"

definition getActiveRideForUser :: "store \<Rightarrow> int \<Rightarrow> ride option" where
  "getActiveRideForUser s userId =
     List.find
       (\<lambda>r. (passengerId r = Val userId \<or> driverId r = Val userId) \<and>
            status r \<in> set [''requested'', ''accepted'', ''in_progress''])
       (map snd (ridesMap s))"

definition getDriverActiveRide :: "store \<Rightarrow> int \<Rightarrow> ride option" where
  "getDriverActiveRide s d =
     List.find
       (\<lambda>r. driverId r = Val d \<and> status r \<in> set [''accepted'', ''in_progress''])
       (map snd (ridesMap s))"

text \<open>
  \<open>createRide\<close> passes \<open>rideData.passengerId!\<close>, which at run time may be \<open>null\<close> or
  left out, so the argument is a \<open>nullable\<close> compared with \<open>===\<close>.
\<close>

definition getPassengerActiveRide :: "store \<Rightarrow> int nullable \<Rightarrow> ride option" where
  "getPassengerActiveRide s p =
     List.find
       (\<lambda>r. passengerId r = p \<and>
            status r \<in> set [''requested'', ''accepted'', ''in_progress''])
       (map snd (ridesMap s))"

text \<open>
  \<open>Array.prototype.slice(start, end)\<close>: a negative index counts from the end of the
  array, and both indices are clamped to the array.
\<close>

definition slice :: "'a list \<Rightarrow> int \<Rightarrow> int \<Rightarrow> 'a list" where
  "slice xs start end' =
     (let len = int (length xs);
          k = (if start < 0 then max (len + start) 0 else min start len);
          fin = (if end' < 0 then max (len + end') 0 else min end' len)
      in take (nat (max (fin - k) 0)) (drop (nat k) xs))"

text \<open>\<open>r.requestedAt?.getTime() || 0\<close>: a missing date and the time 0 both give 0.\<close>

definition requestedTime :: "ride \<Rightarrow> int" where
  "requestedTime r =
     (case requestedAt r of None \<Rightarrow> 0 | Some t \<Rightarrow> if t = 0 then 0 else t)"

text \<open>
  \<open>Array.prototype.sort\<close> is stable; with the comparator \<open>bDate - aDate\<close> it orders by
  descending time, which is the stable insertion sort on the negated time.
  The default \<open>limit = 10\<close> applies when the argument is left out (\<open>None\<close>).
\<close>

definition getUserRides :: "store \<Rightarrow> int \<Rightarrow> int option \<Rightarrow> ride list \<times> store" where
  "getUserRides s userId limit =
     (let l = (case limit of None \<Rightarrow> 10 | Some n \<Rightarrow> n)
      in (slice
            (sort_key (\<lambda>r. - requestedTime r)
               (filter (\<lambda>r. passengerId r = Val userId \<or> driverId r = Val userId)
                  (map snd (ridesMap s))))
            0 l,
          s))"

subsection \<open>Ride lifecycle\<close>

definition createRide :: "store \<Rightarrow> insertRide \<Rightarrow> int \<Rightarrow> (error + ride) \<times> store" where
  "createRide s rideData now =
     (case getPassengerActiveRide s (insertRide.passengerId rideData) of
        Some existingRide \<Rightarrow> (Inl (AlreadyActive ''Passenger already has an active ride''), s)
      | None \<Rightarrow>
          (let i = rideIdCounter s;
               s1 = s\<lparr>rideIdCounter := i + 1\<rparr>;
               r = \<lparr>ride_id = i,
                    passengerId = insertRide.passengerId rideData,
                    driverId = insertRide.driverId rideData,
                    originAddress = insertRide.originAddress rideData,
                    destinationAddress = insertRide.destinationAddress rideData,
                    originLat = insertRide.originLat rideData,
                    originLng = insertRide.originLng rideData,
                    destinationLat = insertRide.destinationLat rideData,
                    destinationLng = insertRide.destinationLng rideData,
                    status = ''requested'',
                    requestedAt = Some now,
                    acceptedAt = None,
                    startedAt = None,
                    completedAt = None,
                    cancelledAt = None,
                    distance = insertRide.distance rideData,
                    duration = insertRide.duration rideData,
                    fare = insertRide.fare rideData,
                    vehicleType = insertRide.vehicleType rideData,
                    paymentMethod = insertRide.paymentMethod rideData\<rparr>
           in (Inr r, s1\<lparr>ridesMap := AList.update i r (ridesMap s1)\<rparr>)))"

definition acceptRide :: "store \<Rightarrow> int \<Rightarrow> int \<Rightarrow> int \<Rightarrow> (error + ride) \<times> store" where
  "acceptRide s rid d now =
     (case getRide s rid of
        None \<Rightarrow> (Inl (NotFound ''Ride not found''), s)
      | Some r \<Rightarrow>
          if status r \<noteq> ''requested''
          then (Inl (InvalidTransition ''Ride is not in requested status''), s)
          else (case getDriverActiveRide s d of
                  Some existingRide \<Rightarrow>
                    (Inl (AlreadyActive ''Driver already has an active ride''), s)
                | None \<Rightarrow>
                    (let updatedRide =
                       r\<lparr>driverId := Val d, status := ''accepted'', acceptedAt := Some now\<rparr>
                     in (Inr updatedRide,
                         s\<lparr>ridesMap := AList.update rid updatedRide (ridesMap s)\<rparr>))))"

definition declineRide :: "store \<Rightarrow> int \<Rightarrow> int \<Rightarrow> (error + ride) \<times> store" where
  "declineRide s rid now =
     (case getRide s rid of
        None \<Rightarrow> (Inl (NotFound ''Ride not found''), s)
      | Some r \<Rightarrow>
          if status r \<noteq> ''requested''
          then (Inl (InvalidTransition ''Ride is not in requested status''), s)
          else (let updatedRide = r\<lparr>status := ''cancelled'', cancelledAt := Some now\<rparr>
                in (Inr updatedRide,
                    s\<lparr>ridesMap := AList.update rid updatedRide (ridesMap s)\<rparr>)))"

definition markDriverArrived :: "store \<Rightarrow> int \<Rightarrow> (error + ride) \<times> store" where
  "markDriverArrived s rid =
     (case getRide s rid of
        None \<Rightarrow> (Inl (NotFound ''Ride not found''), s)
      | Some r \<Rightarrow>
          if status r \<noteq> ''accepted''
          then (Inl (InvalidTransition ''Ride is not in accepted status''), s)
          else (Inr r, s))"

definition startRide :: "store \<Rightarrow> int \<Rightarrow> int \<Rightarrow> (error + ride) \<times> store" where
  "startRide s rid now =
     (case getRide s rid of
        None \<Rightarrow> (Inl (NotFound ''Ride not found''), s)
      | Some r \<Rightarrow>
          if status r \<noteq> ''accepted''
          then (Inl (InvalidTransition ''Ride is not in accepted status''), s)
          else (let updatedRide = r\<lparr>status := ''in_progress'', startedAt := Some now\<rparr>
                in (Inr updatedRide,
                    s\<lparr>ridesMap := AList.update rid updatedRide (ridesMap s)\<rparr>)))"

definition completeRide :: "store \<Rightarrow> int \<Rightarrow> int \<Rightarrow> (error + ride) \<times> store" where
  "completeRide s rid now =
     (case getRide s rid of
        None \<Rightarrow> (Inl (NotFound ''Ride not found''), s)
      | Some r \<Rightarrow>
          if status r \<noteq> ''in_progress''
          then (Inl (InvalidTransition ''Ride is not in progress''), s)
          else (let updatedRide = r\<lparr>status := ''completed'', completedAt := Some now\<rparr>
                in (Inr updatedRide,
                    s\<lparr>ridesMap := AList.update rid updatedRide (ridesMap s)\<rparr>)))"

definition cancelRide :: "store \<Rightarrow> int \<Rightarrow> int \<Rightarrow> (error + ride) \<times> store" where
  "cancelRide s rid now =
     (case getRide s rid of
        None \<Rightarrow> (Inl (NotFound ''Ride not found''), s)
      | Some r \<Rightarrow>
          if status r \<notin> set [''requested'', ''accepted'', ''in_progress'']
          then (Inl (InvalidTransition ''Ride cannot be cancelled''), s)
          else (let updatedRide = r\<lparr>status := ''cancelled'', cancelledAt := Some now\<rparr>
                in (Inr updatedRide,
                    s\<lparr>ridesMap := AList.update rid updatedRide (ridesMap s)\<rparr>)))"

subsection \<open>The constructor\<close>

definition emptyStorage :: store where
  "emptyStorage =
     \<lparr>usersMap = [], vehiclesMap = [], ridesMap = [], ratingsMap = [],
      userIdCounter = 1, vehicleIdCounter = 1, rideIdCounter = 1, ratingIdCounter = 1\<rparr>"

definition testUser :: insertUser where
  "testUser =
     \<lparr>insertUser.username = ''test'',
      insertUser.password =
        ''$2a$10$3Nh1O1pFQTspJZJKi4RhwOsqLu9FwfIuEzLOYX5Nb9hU11Vrf0Siy.salt'',
      insertUser.fullName = ''Test User'',
      insertUser.email = ''test@example.com'',
      insertUser.phone = Val ''555-1234'',
      insertUser.profilePicture = Val [],
      insertUser.userType = Val ''passenger'',
      insertUser.language = Val ''pt'',
      insertUser.isOnline = Val False\<rparr>"

definition newMemStorage :: "int \<Rightarrow> store" where
  "newMemStorage now = snd (createUser emptyStorage testUser now)"

subsection \<open>Sequences of calls\<close>

text \<open>
  The calls that can write to the store, each with the values it reads from its caller
  and from the clock. The queries write nothing and are left out of a sequence.
\<close>

datatype call =
    CreateUser insertUser int
  | UpdateUser int partialUser
  | UpdateUserStatus int bool
  | CreateVehicle insertVehicle
  | UpdateVehicle int partialVehicle
  | CreateRide insertRide int
  | AcceptRide int int int
  | DeclineRide int int
  | MarkDriverArrived int
  | StartRide int int
  | CompleteRide int int
  | CancelRide int int
  | CreateRating insertRating int

fun exec :: "store \<Rightarrow> call \<Rightarrow> store" where
  "exec s (CreateUser userData now) = snd (createUser s userData now)"
| "exec s (UpdateUser i userData) = snd (updateUser s i userData)"
| "exec s (UpdateUserStatus i online) = snd (updateUserStatus s i online)"
| "exec s (CreateVehicle vehicleData) = snd (createVehicle s vehicleData)"
| "exec s (UpdateVehicle i vehicleData) = snd (updateVehicle s i vehicleData)"
| "exec s (CreateRide rideData now) = snd (createRide s rideData now)"
| "exec s (AcceptRide rid d now) = snd (acceptRide s rid d now)"
| "exec s (DeclineRide rid now) = snd (declineRide s rid now)"
| "exec s (MarkDriverArrived rid) = snd (markDriverArrived s rid)"
| "exec s (StartRide rid now) = snd (startRide s rid now)"
| "exec s (CompleteRide rid now) = snd (completeRide s rid now)"
| "exec s (CancelRide rid now) = snd (cancelRide s rid now)"
| "exec s (CreateRating ratingData now) = snd (createRating s ratingData now)"

fun succeeds :: "store \<Rightarrow> call \<Rightarrow> bool" where
  "succeeds s (CreateUser userData now) = True"
| "succeeds s (UpdateUser i userData) = (\<not> isl (fst (updateUser s i userData)))"
| "succeeds s (UpdateUserStatus i online) = (\<not> isl (fst (updateUserStatus s i online)))"
| "succeeds s (CreateVehicle vehicleData) = True"
| "succeeds s (UpdateVehicle i vehicleData) = (\<not> isl (fst (updateVehicle s i vehicleData)))"
| "succeeds s (CreateRide rideData now) = (\<not> isl (fst (createRide s rideData now)))"
| "succeeds s (AcceptRide rid d now) = (\<not> isl (fst (acceptRide s rid d now)))"
| "succeeds s (DeclineRide rid now) = (\<not> isl (fst (declineRide s rid now)))"
| "succeeds s (MarkDriverArrived rid) = (\<not> isl (fst (markDriverArrived s rid)))"
| "succeeds s (StartRide rid now) = (\<not> isl (fst (startRide s rid now)))"
| "succeeds s (CompleteRide rid now) = (\<not> isl (fst (completeRide s rid now)))"
| "succeeds s (CancelRide rid now) = (\<not> isl (fst (cancelRide s rid now)))"
| "succeeds s (CreateRating ratingData now) = True"

text \<open>The store after a sequence of calls, and the calls of the sequence that succeeded.\<close>

fun run :: "store \<Rightarrow> call list \<Rightarrow> store" where
  "run s [] = s"
| "run s (c # cs) = run (exec s c) cs"

fun history :: "store \<Rightarrow> call list \<Rightarrow> call list" where
  "history s [] = []"
| "history s (c # cs) = (if succeeds s c then [c] else []) @ history (exec s c) cs"

text \<open>Which transition of which ride a call is.\<close>

fun accepts :: "int \<Rightarrow> call \<Rightarrow> bool" where
  "accepts k (AcceptRide rid d now) = (rid = k)"
| "accepts k c = False"

fun starts :: "int \<Rightarrow> call \<Rightarrow> bool" where
  "starts k (StartRide rid now) = (rid = k)"
| "starts k c = False"

fun completes :: "int \<Rightarrow> call \<Rightarrow> bool" where
  "completes k (CompleteRide rid now) = (rid = k)"
| "completes k c = False"

fun cancels :: "int \<Rightarrow> call \<Rightarrow> bool" where
  "cancels k (CancelRide rid now) = (rid = k)"
| "cancels k (DeclineRide rid now) = (rid = k)"
| "cancels k c = False"

fun isCreateUser :: "call \<Rightarrow> bool" where
  "isCreateUser (CreateUser userData now) = True"
| "isCreateUser c = False"

subsection \<open>Active rides and invariants\<close>

text \<open>The rides of a store that count against a passenger, a driver, or a user in either role.\<close>

definition passengerActiveRides :: "store \<Rightarrow> int nullable \<Rightarrow> ride list" where
  "passengerActiveRides s p =
     filter (\<lambda>r. passengerId r = p \<and>
                status r \<in> set [''requested'', ''accepted'', ''in_progress''])
       (map snd (ridesMap s))"

definition driverActiveRides :: "store \<Rightarrow> int \<Rightarrow> ride list" where
  "driverActiveRides s d =
     filter (\<lambda>r. driverId r = Val d \<and> status r \<in> set [''accepted'', ''in_progress''])
       (map snd (ridesMap s))"

definition userActiveRides :: "store \<Rightarrow> int \<Rightarrow> ride list" where
  "userActiveRides s u =
     filter (\<lambda>r. (passengerId r = Val u \<or> driverId r = Val u) \<and>
                status r \<in> set [''requested'', ''accepted'', ''in_progress''])
       (map snd (ridesMap s))"

text \<open>
  The invariant of the two guards: no passenger (or missing passenger value) has two
  rides in \<open>requested\<close>, \<open>accepted\<close> or \<open>in_progress\<close>, and no driver has two rides in
  \<open>accepted\<close> or \<open>in_progress\<close>.
\<close>

definition oneActivePerRole :: "store \<Rightarrow> bool" where
  "oneActivePerRole s \<longleftrightarrow>
     (\<forall>p. length (passengerActiveRides s p) \<le> 1) \<and>
     (\<forall>d. length (driverActiveRides s d) \<le> 1)"

text \<open>Every key of the map of rides is below the ride counter.\<close>

definition keysBounded :: "store \<Rightarrow> bool" where
  "keysBounded s \<longleftrightarrow> list_all (\<lambda>k. k < rideIdCounter s) (map fst (ridesMap s))"

text \<open>
  The invariant that ties a ride to the successful calls made so far: a timestamp is
  set exactly when a call of its transition on this ride is among them, and the status
  fixes which timestamps are set. No call on a ride that is yet to be created is among
  them.
\<close>

definition touches :: "int \<Rightarrow> call \<Rightarrow> bool" where
  "touches k c \<longleftrightarrow> accepts k c \<or> starts k c \<or> completes k c \<or> cancels k c"

definition timestampsMatch :: "call list \<Rightarrow> int \<Rightarrow> ride \<Rightarrow> bool" where
  "timestampsMatch h k r \<longleftrightarrow>
     status r \<in> set [''requested'', ''accepted'', ''in_progress'', ''completed'', ''cancelled''] \<and>
     requestedAt r \<noteq> None \<and>
     (acceptedAt r \<noteq> None \<longleftrightarrow> list_ex (accepts k) h) \<and>
     (startedAt r \<noteq> None \<longleftrightarrow> list_ex (starts k) h) \<and>
     (completedAt r \<noteq> None \<longleftrightarrow> list_ex (completes k) h) \<and>
     (cancelledAt r \<noteq> None \<longleftrightarrow> list_ex (cancels k) h)"

definition statusMatch :: "ride \<Rightarrow> bool" where
  "statusMatch r \<longleftrightarrow>
     (status r = ''requested'' \<longrightarrow>
        acceptedAt r = None \<and> startedAt r = None \<and> completedAt r = None \<and>
        cancelledAt r = None) \<and>
     (status r = ''accepted'' \<longrightarrow>
        acceptedAt r \<noteq> None \<and> startedAt r = None \<and> completedAt r = None \<and>
        cancelledAt r = None) \<and>
     (status r = ''in_progress'' \<longrightarrow>
        acceptedAt r \<noteq> None \<and> startedAt r \<noteq> None \<and> completedAt r = None \<and>
        cancelledAt r = None) \<and>
     (status r = ''completed'' \<longrightarrow>
        acceptedAt r \<noteq> None \<and> startedAt r \<noteq> None \<and> completedAt r \<noteq> None \<and>
        cancelledAt r = None) \<and>
     (status r = ''cancelled'' \<longrightarrow>
        cancelledAt r \<noteq> None \<and> completedAt r = None \<and>
        (startedAt r \<noteq> None \<longrightarrow> acceptedAt r \<noteq> None))"

definition historyInv :: "store \<Rightarrow> call list \<Rightarrow> bool" where
  "historyInv s h \<longleftrightarrow>
     keysBounded s \<and>
     (\<forall>k. list_ex (touches k) h \<longrightarrow> k < rideIdCounter s) \<and>
     (\<forall>k r. getRide s k = Some r \<longrightarrow> timestampsMatch h k r \<and> statusMatch r)"

subsection \<open>Example requests, call sequences and stores\<close>

text \<open>
  A ride request with the given passenger and driver fields and fixed other fields; the
  status it carries is overridden by \<open>createRide\<close>.
\<close>

definition rideRequest :: "int nullable \<Rightarrow> int nullable \<Rightarrow> insertRide" where
  "rideRequest p d =
     \<lparr>insertRide.passengerId = p,
      insertRide.driverId = d,
      insertRide.originAddress = ''Rua A, 1'',
      insertRide.destinationAddress = ''Rua B, 2'',
      insertRide.originLat = Val (-5), insertRide.originLng = Val (-42),
      insertRide.destinationLat = Null, insertRide.destinationLng = Undefined,
      insertRide.status = Val ''completed'',
      insertRide.distance = Val 3, insertRide.duration = Val 12,
      insertRide.fare = Val 9, insertRide.vehicleType = Val ''economy'',
      insertRide.paymentMethod = Undefined\<rparr>"

text \<open>A registration with the given username and fixed other fields.\<close>

definition exampleUser :: "string \<Rightarrow> insertUser" where
  "exampleUser name =
     \<lparr>insertUser.username = name, insertUser.password = ''secret'',
      insertUser.fullName = ''Maria Silva'', insertUser.email = ''maria@example.com'',
      insertUser.phone = Null, insertUser.profilePicture = Undefined,
      insertUser.userType = Val ''driver'', insertUser.language = Undefined,
      insertUser.isOnline = Val True\<rparr>"

text \<open>
  After the constructor, passenger 1 requests ride 1; driver 2 accepts it; the ride is
  started; the ride is completed.
\<close>

definition storeRequested :: store where
  "storeRequested = run (newMemStorage 0) [CreateRide (rideRequest (Val 1) Undefined) 5]"

definition storeAccepted :: store where
  "storeAccepted = run storeRequested [AcceptRide 1 2 6]"

definition storeInProgress :: store where
  "storeInProgress = run storeAccepted [StartRide 1 7]"

definition storeCompleted :: store where
  "storeCompleted = run storeInProgress [CompleteRide 1 8]"

text \<open>
  The same calls as one sequence, and calls made after them: ride 1 is cancelled,
  accepted, started, declined and completed again, and passenger 1 requests another
  ride.
\<close>

definition callsCompleted :: "call list" where
  "callsCompleted =
     [CreateRide (rideRequest (Val 1) Undefined) 5, AcceptRide 1 2 6, StartRide 1 7,
      CompleteRide 1 8]"

definition callsAfterwards :: "call list" where
  "callsAfterwards =
     [CancelRide 1 9, AcceptRide 1 3 10, CreateRide (rideRequest (Val 1) Undefined) 11,
      StartRide 1 12, DeclineRide 1 13, CompleteRide 1 14]"

text \<open>
  Passengers 1 and 2 request rides 1 and 2; user 1 then accepts ride 2 as its driver.
\<close>

definition callsBothRoles :: "call list" where
  "callsBothRoles =
     [CreateRide (rideRequest (Val 1) Undefined) 5,
      CreateRide (rideRequest (Val 2) Undefined) 6,
      AcceptRide 2 1 7]"

text \<open>Passenger 1 requests ride 1 and a driver declines it.\<close>

definition callsDeclined :: "call list" where
  "callsDeclined = [CreateRide (rideRequest (Val 1) Undefined) 5, DeclineRide 1 6]"

text \<open>
  Passenger 1 requests ride 1, which is declined, and then ride 2; passenger 3 requests
  ride 3.
\<close>

definition callsTwoRides :: "call list" where
  "callsTwoRides =
     [CreateRide (rideRequest (Val 1) Undefined) 5, DeclineRide 1 6,
      CreateRide (rideRequest (Val 1) Undefined) 7, CreateRide (rideRequest (Val 3) Null) 8]"

section \<open>Properties\<close>

lemmas ride_ops = createRide_def acceptRide_def declineRide_def markDriverArrived_def
  startRide_def completeRide_def cancelRide_def

lemmas eval_defs = ride_ops getRide_def getPassengerActiveRide_def getDriverActiveRide_def
  createUser_def newMemStorage_def emptyStorage_def rideRequest_def Let_def
  storeRequested_def storeAccepted_def storeInProgress_def storeCompleted_def

lemma map_of_update_same: "map_of (AList.update k v al) k = Some v"
  by (simp add: update_conv')

subsection \<open>acceptRide\<close>

text \<open>
  Claim C3. \<open>acceptRide(R, D)\<close> succeeds exactly when ride \<open>R\<close> exists with status
  \<open>requested\<close> and no ride of the store has driver \<open>D\<close> and status \<open>accepted\<close> or
  \<open>in_progress\<close>. On success the returned ride is the old one with \<open>driverId = D\<close>,
  \<open>status = accepted\<close> and \<open>acceptedAt = now\<close>, it is the ride stored under \<open>R\<close>, and
  every further \<open>acceptRide\<close> on \<open>R\<close>, by any driver, fails with InvalidTransition and
  leaves the store as it is.
\<close>

theorem acceptRide_contract:
  "((\<exists>r'. fst (acceptRide s rid d now) = Inr r') \<longleftrightarrow>
      (\<exists>r. getRide s rid = Some r \<and> status r = ''requested'') \<and>
      \<not> (\<exists>x \<in> set (map snd (ridesMap s)).
            driverId x = Val d \<and> (status x = ''accepted'' \<or> status x = ''in_progress''))) \<and>
   (\<forall>r r' s'. getRide s rid = Some r \<and> acceptRide s rid d now = (Inr r', s') \<longrightarrow>
      r' = r\<lparr>driverId := Val d, status := ''accepted'', acceptedAt := Some now\<rparr> \<and>
      getRide s' rid = Some r' \<and>
      (\<forall>d2 now2. \<exists>m. acceptRide s' rid d2 now2 = (Inl (InvalidTransition m), s')))"
proof (intro conjI allI impI)
  show "(\<exists>r'. fst (acceptRide s rid d now) = Inr r') \<longleftrightarrow>
      (\<exists>r. getRide s rid = Some r \<and> status r = ''requested'') \<and>
      \<not> (\<exists>x \<in> set (map snd (ridesMap s)).
            driverId x = Val d \<and> (status x = ''accepted'' \<or> status x = ''in_progress''))"
    by (auto simp: acceptRide_def getDriverActiveRide_def Let_def find_None_iff find_Some_iff
        split: option.splits)
next
  fix r r' s'
  assume h: "getRide s rid = Some r \<and> acceptRide s rid d now = (Inr r', s')"
  then have r': "r' = r\<lparr>driverId := Val d, status := ''accepted'', acceptedAt := Some now\<rparr>"
    and s': "s' = s\<lparr>ridesMap := AList.update rid r' (ridesMap s)\<rparr>"
    by (auto simp: acceptRide_def Let_def split: option.splits if_splits)
  show "r' = r\<lparr>driverId := Val d, status := ''accepted'', acceptedAt := Some now\<rparr>"
    by (rule r')
  show g: "getRide s' rid = Some r'"
    by (simp add: s' getRide_def map_of_update_same)
  have "status r' \<noteq> ''requested''" by (simp add: r')
  with g show "\<exists>m. acceptRide s' rid d2 now2 = (Inl (InvalidTransition m), s')" for d2 now2
    by (simp add: acceptRide_def)
qed

text \<open>
  Witness for C3: on the store where ride 1 is requested, driver 2 accepts ride 1; the
  stored ride then has driver 2, status \<open>accepted\<close> and \<open>acceptedAt = 6\<close>, and a second
  \<open>acceptRide\<close> on ride 1 by driver 3 fails and changes nothing.
\<close>

theorem acceptRide_contract_witness:
  "\<not> isl (fst (acceptRide storeRequested 1 2 6)) \<and>
   map_option driverId (getRide (snd (acceptRide storeRequested 1 2 6)) 1) = Some (Val 2) \<and>
   map_option status (getRide (snd (acceptRide storeRequested 1 2 6)) 1) = Some ''accepted'' \<and>
   map_option acceptedAt (getRide (snd (acceptRide storeRequested 1 2 6)) 1) = Some (Some 6) \<and>
   isl (fst (acceptRide (snd (acceptRide storeRequested 1 2 6)) 1 3 9)) \<and>
   snd (acceptRide (snd (acceptRide storeRequested 1 2 6)) 1 3 9) =
     snd (acceptRide storeRequested 1 2 6)"
proof -
  obtain r where r: "getRide storeRequested 1 = Some r" "status r = ''requested''"
    by (simp add: eval_defs)
  have free: "\<not> (\<exists>x \<in> set (map snd (ridesMap storeRequested)).
      driverId x = Val 2 \<and> (status x = ''accepted'' \<or> status x = ''in_progress''))"
    by (simp add: eval_defs)
  from acceptRide_contract [of storeRequested 1 2 6] r free
  obtain r' where ok: "fst (acceptRide storeRequested 1 2 6) = Inr r'"
    by blast
  obtain s' where s': "acceptRide storeRequested 1 2 6 = (Inr r', s')"
    using ok by (cases "acceptRide storeRequested 1 2 6") simp
  from acceptRide_contract [of storeRequested 1 2 6] r s'
  have eq: "r' = r\<lparr>driverId := Val 2, status := ''accepted'', acceptedAt := Some 6\<rparr>"
    and stored: "getRide s' 1 = Some r'"
    and again: "\<exists>m. acceptRide s' 1 3 9 = (Inl (InvalidTransition m), s')"
    by blast+
  from again obtain m where m: "acceptRide s' 1 3 9 = (Inl (InvalidTransition m), s')" ..
  show ?thesis
    by (simp add: s' stored eq m)
qed

subsection \<open>Failure leaves the store as it was\<close>

text \<open>
  Claim C5. Each of \<open>createRide\<close>, \<open>acceptRide\<close>, \<open>declineRide\<close>, \<open>markDriverArrived\<close>,
  \<open>startRide\<close>, \<open>completeRide\<close> and \<open>cancelRide\<close> is all-or-nothing: when the call fails,
  with whatever error, the store after the call is the store before it.
\<close>

theorem failed_call_leaves_store:
  "(isl (fst (createRide s rideData now)) \<longrightarrow> snd (createRide s rideData now) = s) \<and>
   (isl (fst (acceptRide s rid d now)) \<longrightarrow> snd (acceptRide s rid d now) = s) \<and>
   (isl (fst (declineRide s rid now)) \<longrightarrow> snd (declineRide s rid now) = s) \<and>
   (isl (fst (markDriverArrived s rid)) \<longrightarrow> snd (markDriverArrived s rid) = s) \<and>
   (isl (fst (startRide s rid now)) \<longrightarrow> snd (startRide s rid now) = s) \<and>
   (isl (fst (completeRide s rid now)) \<longrightarrow> snd (completeRide s rid now) = s) \<and>
   (isl (fst (cancelRide s rid now)) \<longrightarrow> snd (cancelRide s rid now) = s)"
  by (simp add: ride_ops Let_def split: option.split)

text \<open>
  Witness for C5: passenger 1 already has the requested ride 1, so a second request
  fails; ride 9 does not exist, so accepting, declining and cancelling it fail; ride 1
  is not accepted, so arrival, start and completion fail. The store is unchanged each
  time.
\<close>

theorem failed_call_leaves_store_witness:
  "isl (fst (createRide storeRequested (rideRequest (Val 1) Null) 6)) \<and>
   snd (createRide storeRequested (rideRequest (Val 1) Null) 6) = storeRequested \<and>
   isl (fst (acceptRide storeRequested 9 2 6)) \<and>
   snd (acceptRide storeRequested 9 2 6) = storeRequested \<and>
   isl (fst (declineRide storeRequested 9 6)) \<and>
   snd (declineRide storeRequested 9 6) = storeRequested \<and>
   isl (fst (markDriverArrived storeRequested 1)) \<and>
   snd (markDriverArrived storeRequested 1) = storeRequested \<and>
   isl (fst (startRide storeRequested 1 6)) \<and>
   snd (startRide storeRequested 1 6) = storeRequested \<and>
   isl (fst (completeRide storeRequested 1 6)) \<and>
   snd (completeRide storeRequested 1 6) = storeRequested \<and>
   isl (fst (cancelRide storeRequested 9 6)) \<and>
   snd (cancelRide storeRequested 9 6) = storeRequested"
proof -
  have a: "isl (fst (createRide storeRequested (rideRequest (Val 1) Null) 6))"
    by (simp add: eval_defs)
  have b: "isl (fst (acceptRide storeRequested 9 2 6))"
    "isl (fst (declineRide storeRequested 9 6))"
    "isl (fst (cancelRide storeRequested 9 6))"
    by (simp_all add: eval_defs)
  have c: "isl (fst (markDriverArrived storeRequested 1))"
    "isl (fst (startRide storeRequested 1 6))"
    "isl (fst (completeRide storeRequested 1 6))"
    by (simp_all add: eval_defs)
  from failed_call_leaves_store [of storeRequested "rideRequest (Val 1) Null" 6 9 2]
    failed_call_leaves_store [of storeRequested "rideRequest (Val 1) Null" 6 1 2] a b c
  show ?thesis by blast
qed

subsection \<open>markDriverArrived\<close>

text \<open>
  Claim C6. \<open>markDriverArrived(R)\<close> changes no state: it fails with NotFound when ride
  \<open>R\<close> is absent, with InvalidTransition when the ride's status is not \<open>accepted\<close>, and
  otherwise returns the stored ride as it is; in every case the store after the call is
  the store before it.
\<close>

theorem markDriverArrived_no_change:
  "(getRide s rid = None \<longrightarrow> (\<exists>m. fst (markDriverArrived s rid) = Inl (NotFound m))) \<and>
   (\<forall>r. getRide s rid = Some r \<and> status r \<noteq> ''accepted'' \<longrightarrow>
        (\<exists>m. fst (markDriverArrived s rid) = Inl (InvalidTransition m))) \<and>
   (\<forall>r. getRide s rid = Some r \<and> status r = ''accepted'' \<longrightarrow>
        fst (markDriverArrived s rid) = Inr r) \<and>
   snd (markDriverArrived s rid) = s"
  by (simp add: markDriverArrived_def split: option.split)

text \<open>
  Witness for C6: ride 5 is absent; ride 1 of the first store is \<open>requested\<close>; ride 1 of
  the second store is \<open>accepted\<close> and comes back unchanged.
\<close>

theorem markDriverArrived_no_change_witness:
  "getRide storeAccepted 5 = None \<and> isl (fst (markDriverArrived storeAccepted 5)) \<and>
   map_option status (getRide storeRequested 1) = Some ''requested'' \<and>
   isl (fst (markDriverArrived storeRequested 1)) \<and>
   map_option status (getRide storeAccepted 1) = Some ''accepted'' \<and>
   Some (projr (fst (markDriverArrived storeAccepted 1))) = getRide storeAccepted 1 \<and>
   snd (markDriverArrived storeAccepted 1) = storeAccepted"
proof -
  have a: "getRide storeAccepted 5 = None" by (simp add: eval_defs)
  obtain r1 where b: "getRide storeRequested 1 = Some r1" "status r1 = ''requested''"
    by (simp add: eval_defs)
  obtain r2 where c: "getRide storeAccepted 1 = Some r2" "status r2 = ''accepted''"
    by (simp add: eval_defs)
  from markDriverArrived_no_change [of storeAccepted 5] a
  have "isl (fst (markDriverArrived storeAccepted 5))" by auto
  moreover from markDriverArrived_no_change [of storeRequested 1] b
  have "isl (fst (markDriverArrived storeRequested 1))" by auto
  moreover from markDriverArrived_no_change [of storeAccepted 1] c
  have "fst (markDriverArrived storeAccepted 1) = Inr r2"
    "snd (markDriverArrived storeAccepted 1) = storeAccepted" by auto
  ultimately show ?thesis using a b c by simp
qed

subsection \<open>createRide then getRide\<close>

text \<open>
  Claim C7, as the spec states it, fails: \<open>createRide\<close> copies every field of the request
  into the new ride and overrides only \<open>id\<close>, \<open>status\<close> and \<open>requestedAt\<close>, and the
  request type has a \<open>driverId\<close> field. A request of passenger 1 (who has no active
  ride) that carries \<open>driverId = 7\<close> succeeds with id 1, and \<open>getRide(1)\<close> returns a ride
  whose \<open>driverId\<close> is 7, not null.
\<close>

theorem createRide_driver_counterexample:
  "passengerActiveRides (newMemStorage 0) (Val 1) = [] \<and>
   \<not> isl (fst (createRide (newMemStorage 0) (rideRequest (Val 1) (Val 7)) 5)) \<and>
   ride_id (projr (fst (createRide (newMemStorage 0) (rideRequest (Val 1) (Val 7)) 5))) = 1 \<and>
   map_option driverId
     (getRide (snd (createRide (newMemStorage 0) (rideRequest (Val 1) (Val 7)) 5)) 1) =
     Some (Val 7)"
  by (simp add: eval_defs passengerActiveRides_def)

text \<open>
  Claim C7, amended. When the passenger of the request has no ride in \<open>requested\<close>,
  \<open>accepted\<close> or \<open>in_progress\<close>, \<open>createRide\<close> succeeds, and \<open>getRide\<close> on the returned id
  gives the returned ride, whose status is \<open>requested\<close>, whose \<open>passengerId\<close> is the
  request's and whose \<open>driverId\<close> is the request's \<open>driverId\<close> (so it is null or absent
  exactly when the request's is).
\<close>

theorem createRide_roundtrip:
  "passengerActiveRides s (insertRide.passengerId rideData) = [] \<Longrightarrow>
   \<exists>r s'. createRide s rideData now = (Inr r, s') \<and>
     getRide s' (ride_id r) = Some r \<and>
     status r = ''requested'' \<and>
     passengerId r = insertRide.passengerId rideData \<and>
     driverId r = insertRide.driverId rideData"
proof -
  assume "passengerActiveRides s (insertRide.passengerId rideData) = []"
  then have "getPassengerActiveRide s (insertRide.passengerId rideData) = None"
    by (auto simp: passengerActiveRides_def getPassengerActiveRide_def find_None_iff
        filter_empty_conv)
  then show ?thesis
    by (simp add: createRide_def Let_def getRide_def map_of_update_same)
qed

text \<open>
  Witness for C7 (amended): on the fresh store passenger 1 has no active ride, and the
  ride created from a request without driver is stored with status \<open>requested\<close>,
  passenger 1 and no driver.
\<close>

theorem createRide_roundtrip_witness:
  "passengerActiveRides (newMemStorage 0) (Val 1) = [] \<and>
   (\<exists>r s'. createRide (newMemStorage 0) (rideRequest (Val 1) Null) 5 = (Inr r, s') \<and>
      getRide s' (ride_id r) = Some r \<and> status r = ''requested'' \<and>
      passengerId r = Val 1 \<and> driverId r = Null)"
proof -
  have a: "passengerActiveRides (newMemStorage 0)
      (insertRide.passengerId (rideRequest (Val 1) Null)) = []"
    by (simp add: eval_defs passengerActiveRides_def)
  have b: "insertRide.passengerId (rideRequest (Val 1) Null) = Val 1"
    "insertRide.driverId (rideRequest (Val 1) Null) = Null"
    by (simp_all add: rideRequest_def)
  from createRide_roundtrip [OF a, of 5] a b show ?thesis by simp
qed

subsection \<open>What a transition leaves alone\<close>

text \<open>
  Claim C9. A successful \<open>acceptRide\<close>, \<open>declineRide\<close>, \<open>startRide\<close>, \<open>completeRide\<close> or
  \<open>cancelRide\<close> stores the ride it returns, and that ride differs from the ride before
  the call only in \<open>status\<close>, in the one timestamp of the transition, and for
  \<open>acceptRide\<close> in \<open>driverId\<close>: putting the old values of these fields back gives the
  old ride, so the id, the passenger, the addresses and coordinates, distance,
  duration, fare, vehicle type, payment method and all other timestamps are kept.
\<close>

theorem transition_frame:
  "getRide s rid = Some r \<Longrightarrow>
   (\<forall>r' s'. acceptRide s rid d now = (Inr r', s') \<longrightarrow>
      getRide s' rid = Some r' \<and>
      r'\<lparr>driverId := driverId r, status := status r, acceptedAt := acceptedAt r\<rparr> = r) \<and>
   (\<forall>r' s'. declineRide s rid now = (Inr r', s') \<longrightarrow>
      getRide s' rid = Some r' \<and>
      r'\<lparr>status := status r, cancelledAt := cancelledAt r\<rparr> = r) \<and>
   (\<forall>r' s'. startRide s rid now = (Inr r', s') \<longrightarrow>
      getRide s' rid = Some r' \<and>
      r'\<lparr>status := status r, startedAt := startedAt r\<rparr> = r) \<and>
   (\<forall>r' s'. completeRide s rid now = (Inr r', s') \<longrightarrow>
      getRide s' rid = Some r' \<and>
      r'\<lparr>status := status r, completedAt := completedAt r\<rparr> = r) \<and>
   (\<forall>r' s'. cancelRide s rid now = (Inr r', s') \<longrightarrow>
      getRide s' rid = Some r' \<and>
      r'\<lparr>status := status r, cancelledAt := cancelledAt r\<rparr> = r)"
  by (auto simp: ride_ops getRide_def Let_def map_of_update_same
      split: option.splits if_splits)

text \<open>
  Witness for C9: ride 1 is accepted and declined from \<open>requested\<close>, started from
  \<open>accepted\<close>, completed and cancelled from \<open>in_progress\<close>; each time the stored ride
  keeps the fields that the transition does not name.
\<close>

theorem transition_frame_witness:
  "(\<exists>r r' s'. getRide storeRequested 1 = Some r \<and>
      acceptRide storeRequested 1 2 6 = (Inr r', s') \<and> getRide s' 1 = Some r' \<and>
      passengerId r' = passengerId r \<and> requestedAt r' = requestedAt r \<and> fare r' = fare r) \<and>
   (\<exists>r r' s'. getRide storeRequested 1 = Some r \<and>
      declineRide storeRequested 1 6 = (Inr r', s') \<and> getRide s' 1 = Some r' \<and>
      passengerId r' = passengerId r \<and> driverId r' = driverId r \<and>
      requestedAt r' = requestedAt r) \<and>
   (\<exists>r r' s'. getRide storeAccepted 1 = Some r \<and>
      startRide storeAccepted 1 7 = (Inr r', s') \<and> getRide s' 1 = Some r' \<and>
      driverId r' = driverId r \<and> acceptedAt r' = acceptedAt r \<and>
      originLat r' = originLat r) \<and>
   (\<exists>r r' s'. getRide storeInProgress 1 = Some r \<and>
      completeRide storeInProgress 1 8 = (Inr r', s') \<and> getRide s' 1 = Some r' \<and>
      driverId r' = driverId r \<and> startedAt r' = startedAt r \<and>
      distance r' = distance r) \<and>
   (\<exists>r r' s'. getRide storeInProgress 1 = Some r \<and>
      cancelRide storeInProgress 1 8 = (Inr r', s') \<and> getRide s' 1 = Some r' \<and>
      driverId r' = driverId r \<and> startedAt r' = startedAt r \<and>
      acceptedAt r' = acceptedAt r)"
proof -
  obtain r1 where r1: "getRide storeRequested 1 = Some r1" by (simp add: eval_defs)
  obtain r2 where r2: "getRide storeAccepted 1 = Some r2" by (simp add: eval_defs)
  obtain r3 where r3: "getRide storeInProgress 1 = Some r3" by (simp add: eval_defs)
  obtain a sa where a: "acceptRide storeRequested 1 2 6 = (Inr a, sa)"
    by (simp add: eval_defs)
  obtain b sb where b: "declineRide storeRequested 1 6 = (Inr b, sb)"
    by (simp add: eval_defs)
  obtain c sc where c: "startRide storeAccepted 1 7 = (Inr c, sc)"
    by (simp add: eval_defs)
  obtain d sd where d: "completeRide storeInProgress 1 8 = (Inr d, sd)"
    by (simp add: eval_defs)
  obtain e se where e: "cancelRide storeInProgress 1 8 = (Inr e, se)"
    by (simp add: eval_defs)
  from transition_frame [OF r1, of 2 6] a b
  have fa: "getRide sa 1 = Some a"
      "a\<lparr>driverId := driverId r1, status := status r1, acceptedAt := acceptedAt r1\<rparr> = r1"
    and fb: "getRide sb 1 = Some b" "b\<lparr>status := status r1, cancelledAt := cancelledAt r1\<rparr> = r1"
    by blast+
  from transition_frame [OF r2, of 2 7] c
  have fc: "getRide sc 1 = Some c" "c\<lparr>status := status r2, startedAt := startedAt r2\<rparr> = r2"
    by blast+
  from transition_frame [OF r3, of 2 8] d e
  have fd: "getRide sd 1 = Some d" "d\<lparr>status := status r3, completedAt := completedAt r3\<rparr> = r3"
    and fe: "getRide se 1 = Some e" "e\<lparr>status := status r3, cancelledAt := cancelledAt r3\<rparr> = r3"
    by blast+
  have "passengerId a = passengerId r1 \<and> requestedAt a = requestedAt r1 \<and> fare a = fare r1"
    using arg_cong [OF fa(2), of passengerId] arg_cong [OF fa(2), of requestedAt]
      arg_cong [OF fa(2), of fare] by simp
  moreover have "passengerId b = passengerId r1 \<and> driverId b = driverId r1 \<and>
      requestedAt b = requestedAt r1"
    using arg_cong [OF fb(2), of passengerId] arg_cong [OF fb(2), of requestedAt]
      arg_cong [OF fb(2), of driverId] by simp
  moreover have "driverId c = driverId r2 \<and> acceptedAt c = acceptedAt r2 \<and>
      originLat c = originLat r2"
    using arg_cong [OF fc(2), of driverId] arg_cong [OF fc(2), of acceptedAt]
      arg_cong [OF fc(2), of originLat] by simp
  moreover have "driverId d = driverId r3 \<and> startedAt d = startedAt r3 \<and>
      distance d = distance r3"
    using arg_cong [OF fd(2), of driverId] arg_cong [OF fd(2), of startedAt]
      arg_cong [OF fd(2), of distance] by simp
  moreover have "driverId e = driverId r3 \<and> startedAt e = startedAt r3 \<and>
      acceptedAt e = acceptedAt r3"
    using arg_cong [OF fe(2), of driverId] arg_cong [OF fe(2), of startedAt]
      arg_cong [OF fe(2), of acceptedAt] by simp
  ultimately show ?thesis
    using r1 r2 r3 a b c d e fa(1) fb(1) fc(1) fd(1) fe(1) by simp
qed

subsection \<open>One active ride per role\<close>

lemma run_snoc: "run s (cs @ [c]) = exec (run s cs) c"
  by (induction cs arbitrary: s) simp_all

lemma filter_update_count:
  "length (filter P (map snd (AList.update k v al))) +
     (case map_of al k of None \<Rightarrow> 0 | Some r \<Rightarrow> if P r then 1 else 0) =
   length (filter P (map snd al)) + (if P v then 1 else 0)"
  by (induction al) auto

lemma filter_update_le_one:
  assumes "length (filter P (map snd al)) \<le> 1"
    and "P v \<Longrightarrow> filter P (map snd al) = [] \<or> (\<exists>r. map_of al k = Some r \<and> P r)"
  shows "length (filter P (map snd (AList.update k v al))) \<le> 1"
proof (cases "P v")
  case False
  with filter_update_count [of P k v al] assms(1) show ?thesis by simp
next
  case True
  from assms(2) [OF True] show ?thesis
  proof
    assume "filter P (map snd al) = []"
    with filter_update_count [of P k v al] True show ?thesis by simp
  next
    assume "\<exists>r. map_of al k = Some r \<and> P r"
    then obtain r where "map_of al k = Some r" "P r" by blast
    with filter_update_count [of P k v al] True assms(1) show ?thesis by simp
  qed
qed

lemma find_None_filter: "List.find P xs = None \<longleftrightarrow> filter P xs = []"
  by (auto simp: find_None_iff filter_empty_conv)

lemma oneActivePerRole_rides:
  "ridesMap s' = ridesMap s \<Longrightarrow> oneActivePerRole s \<Longrightarrow> oneActivePerRole s'"
  by (simp add: oneActivePerRole_def passengerActiveRides_def driverActiveRides_def)

lemma oneActivePerRole_update:
  assumes inv: "oneActivePerRole s"
    and s': "ridesMap s' = AList.update k v (ridesMap s)"
    and pas: "status v \<in> set [''requested'', ''accepted'', ''in_progress''] \<Longrightarrow>
       passengerActiveRides s (passengerId v) = [] \<or>
       (\<exists>r. map_of (ridesMap s) k = Some r \<and> passengerId r = passengerId v \<and>
            status r \<in> set [''requested'', ''accepted'', ''in_progress''])"
    and drv: "\<And>d. status v \<in> set [''accepted'', ''in_progress''] \<Longrightarrow> driverId v = Val d \<Longrightarrow>
       driverActiveRides s d = [] \<or>
       (\<exists>r. map_of (ridesMap s) k = Some r \<and> driverId r = Val d \<and>
            status r \<in> set [''accepted'', ''in_progress''])"
  shows "oneActivePerRole s'"
proof -
  have "length (passengerActiveRides s' p) \<le> 1" for p
    unfolding passengerActiveRides_def s'
  proof (rule filter_update_le_one)
    show "length (filter (\<lambda>r. passengerId r = p \<and>
        status r \<in> set [''requested'', ''accepted'', ''in_progress'']) (map snd (ridesMap s))) \<le> 1"
      using inv by (simp add: oneActivePerRole_def passengerActiveRides_def)
  next
    assume "passengerId v = p \<and> status v \<in> set [''requested'', ''accepted'', ''in_progress'']"
    with pas show "filter (\<lambda>r. passengerId r = p \<and>
        status r \<in> set [''requested'', ''accepted'', ''in_progress'']) (map snd (ridesMap s)) = [] \<or>
        (\<exists>r. map_of (ridesMap s) k = Some r \<and> passengerId r = p \<and>
            status r \<in> set [''requested'', ''accepted'', ''in_progress''])"
      unfolding passengerActiveRides_def by blast
  qed
  moreover have "length (driverActiveRides s' d) \<le> 1" for d
    unfolding driverActiveRides_def s'
  proof (rule filter_update_le_one)
    show "length (filter (\<lambda>r. driverId r = Val d \<and>
        status r \<in> set [''accepted'', ''in_progress'']) (map snd (ridesMap s))) \<le> 1"
      using inv by (simp add: oneActivePerRole_def driverActiveRides_def)
  next
    assume "driverId v = Val d \<and> status v \<in> set [''accepted'', ''in_progress'']"
    with drv [of d] show "filter (\<lambda>r. driverId r = Val d \<and>
        status r \<in> set [''accepted'', ''in_progress'']) (map snd (ridesMap s)) = [] \<or>
        (\<exists>r. map_of (ridesMap s) k = Some r \<and> driverId r = Val d \<and>
            status r \<in> set [''accepted'', ''in_progress''])"
      unfolding driverActiveRides_def by blast
  qed
  ultimately show ?thesis by (simp add: oneActivePerRole_def)
qed


lemma createRide_oneActive:
  assumes "oneActivePerRole s"
  shows "oneActivePerRole (snd (createRide s rideData now))"
proof (cases "getPassengerActiveRide s (insertRide.passengerId rideData)")
  case (Some a)
  then show ?thesis using assms by (simp add: createRide_def)
next
  case None
  then have free: "passengerActiveRides s (insertRide.passengerId rideData) = []"
    by (simp add: getPassengerActiveRide_def passengerActiveRides_def find_None_filter)
  obtain r where s': "ridesMap (snd (createRide s rideData now)) =
      AList.update (rideIdCounter s) r (ridesMap s)"
    and r: "status r = ''requested''" "passengerId r = insertRide.passengerId rideData"
    using None by (simp add: createRide_def Let_def)
  show ?thesis
    by (rule oneActivePerRole_update [OF assms s']) (simp_all add: r free)
qed

lemma acceptRide_oneActive:
  assumes "oneActivePerRole s"
  shows "oneActivePerRole (snd (acceptRide s rid d now))"
proof (cases "\<exists>r. getRide s rid = Some r \<and> status r = ''requested'' \<and>
    getDriverActiveRide s d = None")
  case False
  then have "snd (acceptRide s rid d now) = s"
    by (auto simp: acceptRide_def split: option.splits)
  with assms show ?thesis by simp
next
  case True
  then obtain r where r: "getRide s rid = Some r" "status r = ''requested''"
    and free: "getDriverActiveRide s d = None" by blast
  from free have free': "driverActiveRides s d = []"
    by (simp add: getDriverActiveRide_def driverActiveRides_def find_None_filter)
  let ?v = "r\<lparr>driverId := Val d, status := ''accepted'', acceptedAt := Some now\<rparr>"
  have s': "ridesMap (snd (acceptRide s rid d now)) = AList.update rid ?v (ridesMap s)"
    using r free by (simp add: acceptRide_def Let_def)
  show ?thesis
  proof (rule oneActivePerRole_update [OF assms s'])
    show "passengerActiveRides s (passengerId ?v) = [] \<or>
       (\<exists>x. map_of (ridesMap s) rid = Some x \<and> passengerId x = passengerId ?v \<and>
            status x \<in> set [''requested'', ''accepted'', ''in_progress''])"
      using r by (simp add: getRide_def)
  next
    fix d' assume "driverId ?v = Val d'"
    then have "d' = d" by simp
    with free' show "driverActiveRides s d' = [] \<or>
       (\<exists>x. map_of (ridesMap s) rid = Some x \<and> driverId x = Val d' \<and>
            status x \<in> set [''accepted'', ''in_progress''])" by simp
  qed
qed

lemma startRide_oneActive:
  assumes "oneActivePerRole s"
  shows "oneActivePerRole (snd (startRide s rid now))"
proof (cases "\<exists>r. getRide s rid = Some r \<and> status r = ''accepted''")
  case False
  then have "snd (startRide s rid now) = s"
    by (auto simp: startRide_def split: option.splits)
  with assms show ?thesis by simp
next
  case True
  then obtain r where r: "getRide s rid = Some r" "status r = ''accepted''" by blast
  let ?v = "r\<lparr>status := ''in_progress'', startedAt := Some now\<rparr>"
  have s': "ridesMap (snd (startRide s rid now)) = AList.update rid ?v (ridesMap s)"
    using r by (simp add: startRide_def Let_def)
  show ?thesis
    by (rule oneActivePerRole_update [OF assms s']) (use r in \<open>simp_all add: getRide_def\<close>)
qed

lemma to_cancelled_oneActive:
  assumes "oneActivePerRole s" and "ridesMap s' = AList.update rid v (ridesMap s)"
    and "status v = ''cancelled'' \<or> status v = ''completed''"
  shows "oneActivePerRole s'"
  by (rule oneActivePerRole_update [OF assms(1,2)]) (use assms(3) in auto)

lemma declineRide_oneActive:
  assumes "oneActivePerRole s"
  shows "oneActivePerRole (snd (declineRide s rid now))"
proof (cases "\<exists>r. getRide s rid = Some r \<and> status r = ''requested''")
  case False
  then have "snd (declineRide s rid now) = s"
    by (auto simp: declineRide_def split: option.splits)
  with assms show ?thesis by simp
next
  case True
  then obtain r where r: "getRide s rid = Some r" "status r = ''requested''" by blast
  show ?thesis
    by (rule to_cancelled_oneActive [OF assms, of _ rid
          "r\<lparr>status := ''cancelled'', cancelledAt := Some now\<rparr>"])
      (use r in \<open>simp_all add: declineRide_def Let_def\<close>)
qed

lemma completeRide_oneActive:
  assumes "oneActivePerRole s"
  shows "oneActivePerRole (snd (completeRide s rid now))"
proof (cases "\<exists>r. getRide s rid = Some r \<and> status r = ''in_progress''")
  case False
  then have "snd (completeRide s rid now) = s"
    by (auto simp: completeRide_def split: option.splits)
  with assms show ?thesis by simp
next
  case True
  then obtain r where r: "getRide s rid = Some r" "status r = ''in_progress''" by blast
  show ?thesis
    by (rule to_cancelled_oneActive [OF assms, of _ rid
          "r\<lparr>status := ''completed'', completedAt := Some now\<rparr>"])
      (use r in \<open>simp_all add: completeRide_def Let_def\<close>)
qed

lemma cancelRide_oneActive:
  assumes "oneActivePerRole s"
  shows "oneActivePerRole (snd (cancelRide s rid now))"
proof (cases "\<exists>r. getRide s rid = Some r \<and>
    status r \<in> set [''requested'', ''accepted'', ''in_progress'']")
  case False
  then have "snd (cancelRide s rid now) = s"
    by (auto simp: cancelRide_def split: option.splits)
  with assms show ?thesis by simp
next
  case True
  then obtain r where r: "getRide s rid = Some r"
    "status r \<in> set [''requested'', ''accepted'', ''in_progress'']" by blast
  show ?thesis
    by (rule to_cancelled_oneActive [OF assms, of _ rid
          "r\<lparr>status := ''cancelled'', cancelledAt := Some now\<rparr>"])
      (use r in \<open>simp_all add: cancelRide_def Let_def\<close>)
qed

lemma ridesMap_other_calls:
  "ridesMap (snd (createUser s userData now)) = ridesMap s"
  "ridesMap (snd (updateUser s i partialData)) = ridesMap s"
  "ridesMap (snd (updateUserStatus s i online)) = ridesMap s"
  "ridesMap (snd (createVehicle s vehicleData)) = ridesMap s"
  "ridesMap (snd (updateVehicle s i vehiclePartial)) = ridesMap s"
  "ridesMap (snd (createRating s ratingData now)) = ridesMap s"
  "ridesMap (snd (markDriverArrived s rid)) = ridesMap s"
  by (simp_all add: createUser_def updateUser_def updateUserStatus_def createVehicle_def
      updateVehicle_def createRating_def markDriverArrived_def Let_def split: option.split)

lemma exec_oneActive: "oneActivePerRole s \<Longrightarrow> oneActivePerRole (exec s c)"
  by (cases c)
    (simp_all add: createRide_oneActive acceptRide_oneActive declineRide_oneActive
      startRide_oneActive completeRide_oneActive cancelRide_oneActive
      oneActivePerRole_rides [OF ridesMap_other_calls(1)]
      oneActivePerRole_rides [OF ridesMap_other_calls(2)]
      oneActivePerRole_rides [OF ridesMap_other_calls(3)]
      oneActivePerRole_rides [OF ridesMap_other_calls(4)]
      oneActivePerRole_rides [OF ridesMap_other_calls(5)]
      oneActivePerRole_rides [OF ridesMap_other_calls(6)]
      oneActivePerRole_rides [OF ridesMap_other_calls(7)])

lemma run_oneActive: "oneActivePerRole s \<Longrightarrow> oneActivePerRole (run s cs)"
  by (induction cs arbitrary: s) (simp_all add: exec_oneActive)

lemma newMemStorage_oneActive: "oneActivePerRole (newMemStorage t0)"
  by (simp add: oneActivePerRole_def passengerActiveRides_def driverActiveRides_def
      newMemStorage_def createUser_def emptyStorage_def Let_def)

text \<open>
  Claim C1, amended. In every store reached from the constructor by any sequence of
  calls, every user id is the passenger of at most one ride in \<open>requested\<close>,
  \<open>accepted\<close> or \<open>in_progress\<close>, and the driver of at most one ride in \<open>accepted\<close> or
  \<open>in_progress\<close>: the guard of \<open>createRide\<close> keeps the first bound and the guard of
  \<open>acceptRide\<close> the second. The two bounds are separate; nothing bounds the rides a
  user has across the two roles.
\<close>

theorem one_active_ride_per_role:
  "length (passengerActiveRides (run (newMemStorage t0) cs) (Val u)) \<le> 1 \<and>
   length (driverActiveRides (run (newMemStorage t0) cs) u) \<le> 1"
  using run_oneActive [OF newMemStorage_oneActive, of t0 cs]
  by (simp add: oneActivePerRole_def)

text \<open>
  Claim C1, as the spec states it, fails: \<open>createRide\<close> looks only at the rides a user has
  as passenger and \<open>acceptRide\<close> only at the rides a user has as driver. After passenger
  1 requests ride 1, passenger 2 requests ride 2 and user 1 accepts ride 2, user 1 has
  two rides in a non-terminal status: ride 1 as passenger and ride 2 as driver.
\<close>

theorem one_active_ride_per_user_counterexample:
  "length (userActiveRides (run (newMemStorage 0) callsBothRoles) 1) = 2"
  by (simp add: callsBothRoles_def userActiveRides_def eval_defs)

text \<open>
  Witness for C1 (amended): in that same store user 1 has exactly one active ride as
  passenger and exactly one as driver.
\<close>

theorem one_active_ride_per_role_witness:
  "length (passengerActiveRides (run (newMemStorage 0) callsBothRoles) (Val 1)) = 1 \<and>
   length (driverActiveRides (run (newMemStorage 0) callsBothRoles) 1) = 1"
proof -
  have "passengerActiveRides (run (newMemStorage 0) callsBothRoles) (Val 1) \<noteq> []"
    "driverActiveRides (run (newMemStorage 0) callsBothRoles) 1 \<noteq> []"
    by (simp_all add: callsBothRoles_def passengerActiveRides_def driverActiveRides_def
        eval_defs)
  with one_active_ride_per_role [of 0 callsBothRoles 1] show ?thesis
    by (simp add: le_Suc_eq)
qed

subsection \<open>Ride keys and the counter\<close>

lemma keysBounded_iff:
  "keysBounded s \<longleftrightarrow> (\<forall>k r. map_of (ridesMap s) k = Some r \<longrightarrow> k < rideIdCounter s)"
  unfolding keysBounded_def list_all_iff
  by (metis (no_types, lifting) domI domD dom_map_of_conv_image_fst list.set_map)

lemma rideIdCounter_other_calls:
  "rideIdCounter (snd (createUser s userData now)) = rideIdCounter s"
  "rideIdCounter (snd (updateUser s i partialData)) = rideIdCounter s"
  "rideIdCounter (snd (updateUserStatus s i online)) = rideIdCounter s"
  "rideIdCounter (snd (createVehicle s vehicleData)) = rideIdCounter s"
  "rideIdCounter (snd (updateVehicle s i vehiclePartial)) = rideIdCounter s"
  "rideIdCounter (snd (createRating s ratingData now)) = rideIdCounter s"
  "rideIdCounter (snd (markDriverArrived s rid)) = rideIdCounter s"
  by (simp_all add: createUser_def updateUser_def updateUserStatus_def createVehicle_def
      updateVehicle_def createRating_def markDriverArrived_def Let_def split: option.split)

text \<open>What each ride call does to the map of rides and to the counter.\<close>

lemma createRide_cases:
  obtains (fail) "snd (createRide s rideData now) = s" "isl (fst (createRide s rideData now))"
  | (ok) r where "\<not> isl (fst (createRide s rideData now))"
      "ridesMap (snd (createRide s rideData now)) =
         AList.update (rideIdCounter s) r (ridesMap s)"
      "rideIdCounter (snd (createRide s rideData now)) = rideIdCounter s + 1"
      "status r = ''requested''" "requestedAt r \<noteq> None" "acceptedAt r = None"
      "startedAt r = None" "completedAt r = None" "cancelledAt r = None"
  by (cases "getPassengerActiveRide s (insertRide.passengerId rideData)")
    (simp_all add: createRide_def Let_def)

lemma acceptRide_disj:
  "(snd (acceptRide s rid d now) = s \<and>
      isl (fst (acceptRide s rid d now))) \<or>
   (\<exists>r. \<not> isl (fst (acceptRide s rid d now)) \<and>
      getRide s rid = Some r \<and>
      status r = ''requested'' \<and>
      ridesMap (snd (acceptRide s rid d now)) =
         AList.update rid (r\<lparr>driverId := Val d, status := ''accepted'', acceptedAt := Some now\<rparr>)
           (ridesMap s) \<and>
      rideIdCounter (snd (acceptRide s rid d now)) = rideIdCounter s)"
  by (cases "getRide s rid") (auto simp: acceptRide_def Let_def split: option.splits)

lemma acceptRide_cases:
  obtains (fail) "snd (acceptRide s rid d now) = s" "isl (fst (acceptRide s rid d now))"
  | (ok) r where "\<not> isl (fst (acceptRide s rid d now))"
      "getRide s rid = Some r" "status r = ''requested''"
      "ridesMap (snd (acceptRide s rid d now)) =
         AList.update rid (r\<lparr>driverId := Val d, status := ''accepted'', acceptedAt := Some now\<rparr>)
           (ridesMap s)"
      "rideIdCounter (snd (acceptRide s rid d now)) = rideIdCounter s"
  using acceptRide_disj [of s rid d now] by blast

lemma declineRide_disj:
  "(snd (declineRide s rid now) = s \<and>
      isl (fst (declineRide s rid now))) \<or>
   (\<exists>r. \<not> isl (fst (declineRide s rid now)) \<and>
      getRide s rid = Some r \<and>
      status r = ''requested'' \<and>
      ridesMap (snd (declineRide s rid now)) =
         AList.update rid (r\<lparr>status := ''cancelled'', cancelledAt := Some now\<rparr>) (ridesMap s) \<and>
      rideIdCounter (snd (declineRide s rid now)) = rideIdCounter s)"
  by (cases "getRide s rid") (auto simp: declineRide_def Let_def split: option.splits)

lemma declineRide_cases:
  obtains (fail) "snd (declineRide s rid now) = s" "isl (fst (declineRide s rid now))"
  | (ok) r where "\<not> isl (fst (declineRide s rid now))"
      "getRide s rid = Some r" "status r = ''requested''"
      "ridesMap (snd (declineRide s rid now)) =
         AList.update rid (r\<lparr>status := ''cancelled'', cancelledAt := Some now\<rparr>) (ridesMap s)"
      "rideIdCounter (snd (declineRide s rid now)) = rideIdCounter s"
  using declineRide_disj [of s rid now] by blast

lemma startRide_disj:
  "(snd (startRide s rid now) = s \<and>
      isl (fst (startRide s rid now))) \<or>
   (\<exists>r. \<not> isl (fst (startRide s rid now)) \<and>
      getRide s rid = Some r \<and>
      status r = ''accepted'' \<and>
      ridesMap (snd (startRide s rid now)) =
         AList.update rid (r\<lparr>status := ''in_progress'', startedAt := Some now\<rparr>) (ridesMap s) \<and>
      rideIdCounter (snd (startRide s rid now)) = rideIdCounter s)"
  by (cases "getRide s rid") (auto simp: startRide_def Let_def split: option.splits)

lemma startRide_cases:
  obtains (fail) "snd (startRide s rid now) = s" "isl (fst (startRide s rid now))"
  | (ok) r where "\<not> isl (fst (startRide s rid now))"
      "getRide s rid = Some r" "status r = ''accepted''"
      "ridesMap (snd (startRide s rid now)) =
         AList.update rid (r\<lparr>status := ''in_progress'', startedAt := Some now\<rparr>) (ridesMap s)"
      "rideIdCounter (snd (startRide s rid now)) = rideIdCounter s"
  using startRide_disj [of s rid now] by blast

lemma completeRide_disj:
  "(snd (completeRide s rid now) = s \<and>
      isl (fst (completeRide s rid now))) \<or>
   (\<exists>r. \<not> isl (fst (completeRide s rid now)) \<and>
      getRide s rid = Some r \<and>
      status r = ''in_progress'' \<and>
      ridesMap (snd (completeRide s rid now)) =
         AList.update rid (r\<lparr>status := ''completed'', completedAt := Some now\<rparr>) (ridesMap s) \<and>
      rideIdCounter (snd (completeRide s rid now)) = rideIdCounter s)"
  by (cases "getRide s rid") (auto simp: completeRide_def Let_def split: option.splits)

lemma completeRide_cases:
  obtains (fail) "snd (completeRide s rid now) = s" "isl (fst (completeRide s rid now))"
  | (ok) r where "\<not> isl (fst (completeRide s rid now))"
      "getRide s rid = Some r" "status r = ''in_progress''"
      "ridesMap (snd (completeRide s rid now)) =
         AList.update rid (r\<lparr>status := ''completed'', completedAt := Some now\<rparr>) (ridesMap s)"
      "rideIdCounter (snd (completeRide s rid now)) = rideIdCounter s"
  using completeRide_disj [of s rid now] by blast

lemma cancelRide_disj:
  "(snd (cancelRide s rid now) = s \<and>
      isl (fst (cancelRide s rid now))) \<or>
   (\<exists>r. \<not> isl (fst (cancelRide s rid now)) \<and>
      getRide s rid = Some r \<and>
      (status r = ''requested'' \<or> status r = ''accepted'' \<or> status r = ''in_progress'') \<and>
      ridesMap (snd (cancelRide s rid now)) =
         AList.update rid (r\<lparr>status := ''cancelled'', cancelledAt := Some now\<rparr>) (ridesMap s) \<and>
      rideIdCounter (snd (cancelRide s rid now)) = rideIdCounter s)"
  by (cases "getRide s rid") (auto simp: cancelRide_def Let_def split: option.splits)

lemma cancelRide_cases:
  obtains (fail) "snd (cancelRide s rid now) = s" "isl (fst (cancelRide s rid now))"
  | (ok) r where "\<not> isl (fst (cancelRide s rid now))"
      "getRide s rid = Some r"
      "status r = ''requested'' \<or> status r = ''accepted'' \<or> status r = ''in_progress''"
      "ridesMap (snd (cancelRide s rid now)) =
         AList.update rid (r\<lparr>status := ''cancelled'', cancelledAt := Some now\<rparr>) (ridesMap s)"
      "rideIdCounter (snd (cancelRide s rid now)) = rideIdCounter s"
  using cancelRide_disj [of s rid now] by blast

lemma keysBounded_update:
  assumes "keysBounded s" and "ridesMap s' = AList.update k v (ridesMap s)"
    and "rideIdCounter s \<le> rideIdCounter s'" and "k < rideIdCounter s'"
  shows "keysBounded s'"
  using assms unfolding keysBounded_iff by (auto simp: update_conv' split: if_splits)

lemma keysBounded_same:
  "keysBounded s \<Longrightarrow> ridesMap s' = ridesMap s \<Longrightarrow> rideIdCounter s' = rideIdCounter s \<Longrightarrow>
   keysBounded s'"
  by (simp add: keysBounded_def)

lemma keysBounded_replace:
  assumes "keysBounded s" and "getRide s k = Some r"
    and "ridesMap s' = AList.update k v (ridesMap s)"
    and "rideIdCounter s' = rideIdCounter s"
  shows "keysBounded s'"
proof -
  from assms(1,2) have "k < rideIdCounter s" by (auto simp: keysBounded_iff getRide_def)
  with assms show ?thesis by (auto intro: keysBounded_update)
qed

lemma createRide_keysBounded:
  "keysBounded s \<Longrightarrow> keysBounded (snd (createRide s rideData now))"
  by (cases s rideData now rule: createRide_cases) (auto intro: keysBounded_update)

lemma acceptRide_keysBounded: "keysBounded s \<Longrightarrow> keysBounded (snd (acceptRide s rid d now))"
  by (cases s rid d now rule: acceptRide_cases) (auto intro: keysBounded_replace)

lemma declineRide_keysBounded: "keysBounded s \<Longrightarrow> keysBounded (snd (declineRide s rid now))"
  by (cases s rid now rule: declineRide_cases) (auto intro: keysBounded_replace)

lemma startRide_keysBounded: "keysBounded s \<Longrightarrow> keysBounded (snd (startRide s rid now))"
  by (cases s rid now rule: startRide_cases) (auto intro: keysBounded_replace)

lemma completeRide_keysBounded: "keysBounded s \<Longrightarrow> keysBounded (snd (completeRide s rid now))"
  by (cases s rid now rule: completeRide_cases) (auto intro: keysBounded_replace)

lemma cancelRide_keysBounded: "keysBounded s \<Longrightarrow> keysBounded (snd (cancelRide s rid now))"
  by (cases s rid now rule: cancelRide_cases) (auto intro: keysBounded_replace)

lemma exec_keysBounded: "keysBounded s \<Longrightarrow> keysBounded (exec s c)"
  by (cases c)
    (simp_all add: keysBounded_same ridesMap_other_calls rideIdCounter_other_calls
      createRide_keysBounded acceptRide_keysBounded declineRide_keysBounded
      startRide_keysBounded completeRide_keysBounded cancelRide_keysBounded)

lemma run_keysBounded: "keysBounded s \<Longrightarrow> keysBounded (run s cs)"
  by (induction cs arbitrary: s) (simp_all add: exec_keysBounded)

lemma newMemStorage_keysBounded: "keysBounded (newMemStorage t0)"
  by (simp add: keysBounded_def newMemStorage_def createUser_def emptyStorage_def Let_def)


subsection \<open>Terminal rides\<close>

lemma getRide_update_other:
  "ridesMap s' = AList.update k' v (ridesMap s) \<Longrightarrow> k' \<noteq> k \<Longrightarrow> getRide s' k = getRide s k"
  by (simp add: getRide_def update_conv')

lemma getRide_update_same:
  "ridesMap s' = AList.update k v (ridesMap s) \<Longrightarrow> getRide s' k = Some v"
  by (simp add: getRide_def update_conv')

lemma getRide_same: "ridesMap s' = ridesMap s \<Longrightarrow> getRide s' k = getRide s k"
  by (simp add: getRide_def)

lemma terminal_exec:
  assumes kb: "keysBounded s" and r: "getRide s k = Some r"
    and t: "status r = ''completed'' \<or> status r = ''cancelled''"
  shows "getRide (exec s c) k = Some r"
proof (cases c)
  case (CreateRide rideData now)
  from kb r have "rideIdCounter s \<noteq> k" by (auto simp: keysBounded_iff getRide_def)
  then have "getRide (snd (createRide s rideData now)) k = Some r"
    by (cases s rideData now rule: createRide_cases) (auto simp: r getRide_update_other)
  then show ?thesis by (simp add: CreateRide)
next
  case (AcceptRide rid d now)
  have "getRide (snd (acceptRide s rid d now)) k = Some r"
    by (cases s rid d now rule: acceptRide_cases; cases "rid = k")
      (use r t in \<open>auto simp: getRide_update_other\<close>)
  then show ?thesis by (simp add: AcceptRide)
next
  case (DeclineRide rid now)
  have "getRide (snd (declineRide s rid now)) k = Some r"
    by (cases s rid now rule: declineRide_cases; cases "rid = k")
      (use r t in \<open>auto simp: getRide_update_other\<close>)
  then show ?thesis by (simp add: DeclineRide)
next
  case (StartRide rid now)
  have "getRide (snd (startRide s rid now)) k = Some r"
    by (cases s rid now rule: startRide_cases; cases "rid = k")
      (use r t in \<open>auto simp: getRide_update_other\<close>)
  then show ?thesis by (simp add: StartRide)
next
  case (CompleteRide rid now)
  have "getRide (snd (completeRide s rid now)) k = Some r"
    by (cases s rid now rule: completeRide_cases; cases "rid = k")
      (use r t in \<open>auto simp: getRide_update_other\<close>)
  then show ?thesis by (simp add: CompleteRide)
next
  case (CancelRide rid now)
  have "getRide (snd (cancelRide s rid now)) k = Some r"
    by (cases s rid now rule: cancelRide_cases; cases "rid = k")
      (use r t in \<open>auto simp: getRide_update_other\<close>)
  then show ?thesis by (simp add: CancelRide)
qed (simp_all add: r getRide_same ridesMap_other_calls)

lemma terminal_run:
  "keysBounded s \<Longrightarrow> getRide s k = Some r \<Longrightarrow>
   status r = ''completed'' \<or> status r = ''cancelled'' \<Longrightarrow> getRide (run s cs) k = Some r"
  by (induction cs arbitrary: s) (simp_all add: terminal_exec exec_keysBounded)

lemma run_append: "run s (cs @ cs') = run (run s cs) cs'"
  by (induction cs arbitrary: s) simp_all

text \<open>
  Claim C4. A ride whose status is \<open>completed\<close> or \<open>cancelled\<close> never changes again. In a
  store reached from the constructor, each of \<open>acceptRide\<close>, \<open>declineRide\<close>,
  \<open>markDriverArrived\<close>, \<open>startRide\<close>, \<open>completeRide\<close> and \<open>cancelRide\<close> on such a ride
  fails with InvalidTransition, and after any further sequence of calls the ride stored
  under its id is still the same ride, so its status is still the terminal one.
\<close>

theorem terminal_ride_is_final:
  assumes "getRide (run (newMemStorage t0) cs) k = Some r"
    and "status r = ''completed'' \<or> status r = ''cancelled''"
  shows "(\<exists>m. fst (acceptRide (run (newMemStorage t0) cs) k d now) = Inl (InvalidTransition m)) \<and>
    (\<exists>m. fst (declineRide (run (newMemStorage t0) cs) k now) = Inl (InvalidTransition m)) \<and>
    (\<exists>m. fst (markDriverArrived (run (newMemStorage t0) cs) k) = Inl (InvalidTransition m)) \<and>
    (\<exists>m. fst (startRide (run (newMemStorage t0) cs) k now) = Inl (InvalidTransition m)) \<and>
    (\<exists>m. fst (completeRide (run (newMemStorage t0) cs) k now) = Inl (InvalidTransition m)) \<and>
    (\<exists>m. fst (cancelRide (run (newMemStorage t0) cs) k now) = Inl (InvalidTransition m)) \<and>
    (\<forall>cs'. getRide (run (newMemStorage t0) (cs @ cs')) k = Some r)"
proof -
  have "getRide (run (newMemStorage t0) (cs @ cs')) k = Some r" for cs'
    unfolding run_append
    by (rule terminal_run [OF run_keysBounded [OF newMemStorage_keysBounded] assms])
  moreover from assms have
    "\<exists>m. fst (acceptRide (run (newMemStorage t0) cs) k d now) = Inl (InvalidTransition m)"
    "\<exists>m. fst (declineRide (run (newMemStorage t0) cs) k now) = Inl (InvalidTransition m)"
    "\<exists>m. fst (markDriverArrived (run (newMemStorage t0) cs) k) = Inl (InvalidTransition m)"
    "\<exists>m. fst (startRide (run (newMemStorage t0) cs) k now) = Inl (InvalidTransition m)"
    "\<exists>m. fst (completeRide (run (newMemStorage t0) cs) k now) = Inl (InvalidTransition m)"
    "\<exists>m. fst (cancelRide (run (newMemStorage t0) cs) k now) = Inl (InvalidTransition m)"
    by (auto simp: ride_ops)
  ultimately show ?thesis by blast
qed

lemma storeCompleted_run: "storeCompleted = run (newMemStorage 0) callsCompleted"
  by (simp add: storeCompleted_def storeInProgress_def storeAccepted_def storeRequested_def
      callsCompleted_def)

text \<open>
  Witness for C4: ride 1 is completed; the six calls on it fail, and after the calls made
  afterwards, which include a new request by its passenger, ride 1 is as it was.
\<close>

theorem terminal_ride_is_final_witness:
  "map_option status (getRide storeCompleted 1) = Some ''completed'' \<and>
   isl (fst (acceptRide storeCompleted 1 3 9)) \<and>
   isl (fst (declineRide storeCompleted 1 9)) \<and>
   isl (fst (markDriverArrived storeCompleted 1)) \<and>
   isl (fst (startRide storeCompleted 1 9)) \<and>
   isl (fst (completeRide storeCompleted 1 9)) \<and>
   isl (fst (cancelRide storeCompleted 1 9)) \<and>
   getRide (run (newMemStorage 0) (callsCompleted @ callsAfterwards)) 1 =
     getRide storeCompleted 1"
proof -
  obtain r where r: "getRide (run (newMemStorage 0) callsCompleted) 1 = Some r"
    and t: "status r = ''completed''"
    by (simp add: callsCompleted_def eval_defs)
  from t have t': "status r = ''completed'' \<or> status r = ''cancelled''" by simp
  from terminal_ride_is_final [OF r t', of 3 9] terminal_ride_is_final [OF r t', of 3 9]
  show ?thesis
    unfolding storeCompleted_run using r t by auto
qed

subsection \<open>Status and timestamps\<close>

lemma history_snoc:
  "history s (cs @ [c]) = history s cs @ (if succeeds (run s cs) c then [c] else [])"
  by (induction cs arbitrary: s) simp_all

lemma timestampsMatch_snoc:
  "\<not> touches k c \<Longrightarrow> timestampsMatch (h @ [c]) k r = timestampsMatch h k r"
  by (simp add: timestampsMatch_def touches_def)

lemma historyInv_same:
  assumes "historyInv s h" and "ridesMap s' = ridesMap s"
    and "rideIdCounter s' = rideIdCounter s" and "\<And>k. \<not> touches k c"
  shows "historyInv s' (h @ [c])"
  using assms
  by (simp add: historyInv_def timestampsMatch_snoc getRide_def keysBounded_def)

lemma historyInv_replace:
  assumes inv: "historyInv s h" and old: "getRide s rid = Some r"
    and map: "ridesMap s' = AList.update rid v (ridesMap s)"
    and cnt: "rideIdCounter s' = rideIdCounter s"
    and new: "timestampsMatch h rid r \<Longrightarrow> statusMatch r \<Longrightarrow>
        timestampsMatch (h @ [c]) rid v \<and> statusMatch v"
    and others: "\<And>k. k \<noteq> rid \<Longrightarrow> \<not> touches k c"
  shows "historyInv s' (h @ [c])"
  unfolding historyInv_def
proof (intro conjI allI impI)
  from inv have kb: "keysBounded s" by (simp add: historyInv_def)
  show "keysBounded s'" by (rule keysBounded_replace [OF kb old map cnt])
  from kb old have lt: "rid < rideIdCounter s" by (auto simp: keysBounded_iff getRide_def)
  show "k < rideIdCounter s'" if "list_ex (touches k) (h @ [c])" for k
  proof (cases "k = rid")
    case True
    with lt cnt show ?thesis by simp
  next
    case False
    with that others have "list_ex (touches k) h" by simp
    with inv cnt show ?thesis by (simp add: historyInv_def)
  qed
  fix k x assume x: "getRide s' k = Some x"
  show "timestampsMatch (h @ [c]) k x" "statusMatch x"
  proof -
    have "timestampsMatch (h @ [c]) k x \<and> statusMatch x"
    proof (cases "k = rid")
      case True
      with x map have "x = v" by (simp add: getRide_update_same)
      with new inv old True show ?thesis by (simp add: historyInv_def)
    next
      case False
      with x map have "getRide s k = Some x" by (simp add: getRide_update_other)
      with inv have "timestampsMatch h k x \<and> statusMatch x" by (simp add: historyInv_def)
      with others [OF False] show ?thesis by (simp add: timestampsMatch_snoc)
    qed
    then show "timestampsMatch (h @ [c]) k x" "statusMatch x" by simp_all
  qed
qed

lemma historyInv_create:
  assumes inv: "historyInv s h"
    and map: "ridesMap s' = AList.update (rideIdCounter s) v (ridesMap s)"
    and cnt: "rideIdCounter s' = rideIdCounter s + 1"
    and v: "status v = ''requested''" "requestedAt v \<noteq> None" "acceptedAt v = None"
      "startedAt v = None" "completedAt v = None" "cancelledAt v = None"
    and c: "\<And>k. \<not> touches k c"
  shows "historyInv s' (h @ [c])"
  unfolding historyInv_def
proof (intro conjI allI impI)
  from inv have kb: "keysBounded s" by (simp add: historyInv_def)
  show "keysBounded s'"
    by (rule keysBounded_update [OF kb map]) (simp_all add: cnt)
  show "k < rideIdCounter s'" if "list_ex (touches k) (h @ [c])" for k
  proof -
    from that c have "list_ex (touches k) h" by simp
    with inv have "k < rideIdCounter s" by (simp add: historyInv_def)
    with cnt show ?thesis by simp
  qed
  have fresh: "\<not> list_ex (touches (rideIdCounter s)) h"
    using inv by (auto simp: historyInv_def)
  fix k x assume x: "getRide s' k = Some x"
  have "timestampsMatch (h @ [c]) k x \<and> statusMatch x"
  proof (cases "k = rideIdCounter s")
    case True
    with x map have "x = v" by (simp add: getRide_update_same)
    moreover have "timestampsMatch h (rideIdCounter s) v"
      using fresh v by (auto simp: timestampsMatch_def touches_def list_ex_iff)
    moreover have "statusMatch v" using v by (simp add: statusMatch_def)
    ultimately show ?thesis using True c by (simp add: timestampsMatch_snoc)
  next
    case False
    with x map have "getRide s k = Some x" by (simp add: getRide_update_other)
    with inv have "timestampsMatch h k x \<and> statusMatch x" by (simp add: historyInv_def)
    with c show ?thesis by (simp add: timestampsMatch_snoc)
  qed
  then show "timestampsMatch (h @ [c]) k x" "statusMatch x" by simp_all
qed


lemma acceptRide_historyInv:
  assumes "historyInv s h"
  shows "historyInv (snd (acceptRide s rid d now))
     (h @ (if succeeds s (AcceptRide rid d now) then [AcceptRide rid d now] else []))"
proof (cases s rid d now rule: acceptRide_cases)
  case fail
  with assms show ?thesis by simp
next
  case (ok r)
  have "historyInv (snd (acceptRide s rid d now)) (h @ [AcceptRide rid d now])"
    by (rule historyInv_replace [OF assms ok(2) ok(4) ok(5)])
      (use ok(3) in \<open>auto simp: timestampsMatch_def statusMatch_def touches_def\<close>)
  with ok(1) show ?thesis by simp
qed

lemma declineRide_historyInv:
  assumes "historyInv s h"
  shows "historyInv (snd (declineRide s rid now))
     (h @ (if succeeds s (DeclineRide rid now) then [DeclineRide rid now] else []))"
proof (cases s rid now rule: declineRide_cases)
  case fail
  with assms show ?thesis by simp
next
  case (ok r)
  have "historyInv (snd (declineRide s rid now)) (h @ [DeclineRide rid now])"
    by (rule historyInv_replace [OF assms ok(2) ok(4) ok(5)])
      (use ok(3) in \<open>auto simp: timestampsMatch_def statusMatch_def touches_def\<close>)
  with ok(1) show ?thesis by simp
qed

lemma startRide_historyInv:
  assumes "historyInv s h"
  shows "historyInv (snd (startRide s rid now))
     (h @ (if succeeds s (StartRide rid now) then [StartRide rid now] else []))"
proof (cases s rid now rule: startRide_cases)
  case fail
  with assms show ?thesis by simp
next
  case (ok r)
  have "historyInv (snd (startRide s rid now)) (h @ [StartRide rid now])"
    by (rule historyInv_replace [OF assms ok(2) ok(4) ok(5)])
      (use ok(3) in \<open>auto simp: timestampsMatch_def statusMatch_def touches_def\<close>)
  with ok(1) show ?thesis by simp
qed

lemma completeRide_historyInv:
  assumes "historyInv s h"
  shows "historyInv (snd (completeRide s rid now))
     (h @ (if succeeds s (CompleteRide rid now) then [CompleteRide rid now] else []))"
proof (cases s rid now rule: completeRide_cases)
  case fail
  with assms show ?thesis by simp
next
  case (ok r)
  have "historyInv (snd (completeRide s rid now)) (h @ [CompleteRide rid now])"
    by (rule historyInv_replace [OF assms ok(2) ok(4) ok(5)])
      (use ok(3) in \<open>auto simp: timestampsMatch_def statusMatch_def touches_def\<close>)
  with ok(1) show ?thesis by simp
qed

lemma cancelRide_historyInv:
  assumes "historyInv s h"
  shows "historyInv (snd (cancelRide s rid now))
     (h @ (if succeeds s (CancelRide rid now) then [CancelRide rid now] else []))"
proof (cases s rid now rule: cancelRide_cases)
  case fail
  with assms show ?thesis by simp
next
  case (ok r)
  have "historyInv (snd (cancelRide s rid now)) (h @ [CancelRide rid now])"
    by (rule historyInv_replace [OF assms ok(2) ok(4) ok(5)])
      (use ok(3) in \<open>auto simp: timestampsMatch_def statusMatch_def touches_def\<close>)
  with ok(1) show ?thesis by simp
qed

lemma createRide_historyInv:
  assumes "historyInv s h"
  shows "historyInv (snd (createRide s rideData now))
     (h @ (if succeeds s (CreateRide rideData now) then [CreateRide rideData now] else []))"
proof (cases s rideData now rule: createRide_cases)
  case fail
  with assms show ?thesis by simp
next
  case (ok r)
  have "historyInv (snd (createRide s rideData now)) (h @ [CreateRide rideData now])"
    by (rule historyInv_create [OF assms ok(2-9)]) (simp add: touches_def)
  with ok(1) show ?thesis by simp
qed

lemma historyInv_unchanged:
  assumes "historyInv s h" and "ridesMap s' = ridesMap s"
    and "rideIdCounter s' = rideIdCounter s" and "\<And>k. \<not> touches k c"
  shows "historyInv s' (h @ (if b then [c] else []))"
proof (cases b)
  case True
  with historyInv_same [OF assms] show ?thesis by simp
next
  case False
  with assms(1-3) show ?thesis
    by (simp add: historyInv_def getRide_def keysBounded_def)
qed

lemma exec_historyInv:
  assumes "historyInv s h"
  shows "historyInv (exec s c) (h @ (if succeeds s c then [c] else []))"
proof (cases c)
  case (CreateRide rideData now)
  with createRide_historyInv [OF assms, of rideData now] show ?thesis by (simp split: if_splits)
next
  case (AcceptRide rid d now)
  with acceptRide_historyInv [OF assms, of rid d now] show ?thesis by (simp split: if_splits)
next
  case (DeclineRide rid now)
  with declineRide_historyInv [OF assms, of rid now] show ?thesis by (simp split: if_splits)
next
  case (StartRide rid now)
  with startRide_historyInv [OF assms, of rid now] show ?thesis by (simp split: if_splits)
next
  case (CompleteRide rid now)
  with completeRide_historyInv [OF assms, of rid now] show ?thesis by (simp split: if_splits)
next
  case (CancelRide rid now)
  with cancelRide_historyInv [OF assms, of rid now] show ?thesis by (simp split: if_splits)
next
  case (CreateUser userData now)
  show ?thesis unfolding CreateUser exec.simps
    by (rule historyInv_unchanged [OF assms])
      (simp_all add: ridesMap_other_calls rideIdCounter_other_calls touches_def)
next
  case (UpdateUser i userData)
  show ?thesis unfolding UpdateUser exec.simps
    by (rule historyInv_unchanged [OF assms])
      (simp_all add: ridesMap_other_calls rideIdCounter_other_calls touches_def)
next
  case (UpdateUserStatus i online)
  show ?thesis unfolding UpdateUserStatus exec.simps
    by (rule historyInv_unchanged [OF assms])
      (simp_all add: ridesMap_other_calls rideIdCounter_other_calls touches_def)
next
  case (CreateVehicle vehicleData)
  show ?thesis unfolding CreateVehicle exec.simps
    by (rule historyInv_unchanged [OF assms])
      (simp_all add: ridesMap_other_calls rideIdCounter_other_calls touches_def)
next
  case (UpdateVehicle i vehicleData)
  show ?thesis unfolding UpdateVehicle exec.simps
    by (rule historyInv_unchanged [OF assms])
      (simp_all add: ridesMap_other_calls rideIdCounter_other_calls touches_def)
next
  case (MarkDriverArrived rid)
  show ?thesis unfolding MarkDriverArrived exec.simps
    by (rule historyInv_unchanged [OF assms])
      (simp_all add: ridesMap_other_calls rideIdCounter_other_calls touches_def)
next
  case (CreateRating ratingData now)
  show ?thesis unfolding CreateRating exec.simps
    by (rule historyInv_unchanged [OF assms])
      (simp_all add: ridesMap_other_calls rideIdCounter_other_calls touches_def)
qed

lemma newMemStorage_historyInv: "historyInv (newMemStorage t0) []"
  using newMemStorage_keysBounded [of t0]
  by (simp add: historyInv_def getRide_def newMemStorage_def createUser_def emptyStorage_def
      Let_def)

lemma run_historyInv:
  "historyInv (run (newMemStorage t0) cs) (history (newMemStorage t0) cs)"
proof (induction cs rule: rev_induct)
  case Nil
  show ?case by (simp add: newMemStorage_historyInv)
next
  case (snoc c cs)
  from exec_historyInv [OF snoc, of c] show ?case
    by (simp only: run_snoc history_snoc)
qed

text \<open>
  Claim C2. For every ride of a store reached from the constructor by any sequence of
  calls, the status is one of \<open>requested\<close>, \<open>accepted\<close>, \<open>in_progress\<close>, \<open>completed\<close>,
  \<open>cancelled\<close>; \<open>requestedAt\<close> is set; and each other timestamp is set if and only if
  its transition has occurred, that is, a call of that transition on this ride is among
  the successful calls of the sequence (\<open>acceptRide\<close> for \<open>acceptedAt\<close>, \<open>startRide\<close>
  for \<open>startedAt\<close>, \<open>completeRide\<close> for \<open>completedAt\<close>, \<open>cancelRide\<close> or \<open>declineRide\<close>
  for \<open>cancelledAt\<close>). In terms of the status: \<open>acceptedAt\<close> is set exactly when the
  ride is accepted, in progress or completed, or was cancelled after it had been
  accepted; \<open>completedAt\<close> exactly when the status is \<open>completed\<close>; \<open>cancelledAt\<close>
  exactly when it is \<open>cancelled\<close>.
\<close>

theorem ride_status_and_timestamps:
  assumes "getRide (run (newMemStorage t0) cs) k = Some r"
  shows "status r \<in> set [''requested'', ''accepted'', ''in_progress'', ''completed'', ''cancelled''] \<and>
    requestedAt r \<noteq> None \<and>
    (acceptedAt r \<noteq> None \<longleftrightarrow> (\<exists>c \<in> set (history (newMemStorage t0) cs). accepts k c)) \<and>
    (startedAt r \<noteq> None \<longleftrightarrow> (\<exists>c \<in> set (history (newMemStorage t0) cs). starts k c)) \<and>
    (completedAt r \<noteq> None \<longleftrightarrow> (\<exists>c \<in> set (history (newMemStorage t0) cs). completes k c)) \<and>
    (cancelledAt r \<noteq> None \<longleftrightarrow> (\<exists>c \<in> set (history (newMemStorage t0) cs). cancels k c)) \<and>
    (acceptedAt r \<noteq> None \<longleftrightarrow>
       status r \<in> set [''accepted'', ''in_progress'', ''completed''] \<or>
       status r = ''cancelled'' \<and> (\<exists>c \<in> set (history (newMemStorage t0) cs). accepts k c)) \<and>
    (status r = ''completed'' \<longleftrightarrow> completedAt r \<noteq> None) \<and>
    (status r = ''cancelled'' \<longleftrightarrow> cancelledAt r \<noteq> None)"
proof -
  from run_historyInv [of t0 cs] assms
  have m: "timestampsMatch (history (newMemStorage t0) cs) k r" and st: "statusMatch r"
    by (simp_all add: historyInv_def)
  from m have five: "status r = ''requested'' \<or> status r = ''accepted'' \<or>
      status r = ''in_progress'' \<or> status r = ''completed'' \<or> status r = ''cancelled''"
    by (simp add: timestampsMatch_def)
  from m have hist: "requestedAt r \<noteq> None"
    "acceptedAt r \<noteq> None \<longleftrightarrow> (\<exists>c \<in> set (history (newMemStorage t0) cs). accepts k c)"
    "startedAt r \<noteq> None \<longleftrightarrow> (\<exists>c \<in> set (history (newMemStorage t0) cs). starts k c)"
    "completedAt r \<noteq> None \<longleftrightarrow> (\<exists>c \<in> set (history (newMemStorage t0) cs). completes k c)"
    "cancelledAt r \<noteq> None \<longleftrightarrow> (\<exists>c \<in> set (history (newMemStorage t0) cs). cancels k c)"
    by (simp_all add: timestampsMatch_def list_ex_iff)
  have a: "acceptedAt r \<noteq> None \<longleftrightarrow>
       status r \<in> set [''accepted'', ''in_progress'', ''completed''] \<or>
       status r = ''cancelled'' \<and> (\<exists>c \<in> set (history (newMemStorage t0) cs). accepts k c)"
    using five st hist(2) by (auto simp: statusMatch_def)
  have b: "status r = ''completed'' \<longleftrightarrow> completedAt r \<noteq> None"
    using five st by (auto simp: statusMatch_def)
  have c: "status r = ''cancelled'' \<longleftrightarrow> cancelledAt r \<noteq> None"
    using five st by (auto simp: statusMatch_def)
  from five have "status r \<in> set [''requested'', ''accepted'', ''in_progress'', ''completed'',
      ''cancelled'']" by auto
  with hist a b c show ?thesis by blast
qed


text \<open>
  Witness for C2: the completed ride has \<open>acceptedAt = 6\<close> and a successful \<open>acceptRide\<close>
  in its history, and neither \<open>cancelledAt\<close> nor a cancellation; the declined ride has
  \<open>cancelledAt = 6\<close> and a successful \<open>declineRide\<close>, and neither \<open>acceptedAt\<close> nor an
  acceptance.
\<close>

theorem ride_status_and_timestamps_witness:
  "map_option status (getRide (run (newMemStorage 0) callsCompleted) 1) = Some ''completed'' \<and>
   map_option acceptedAt (getRide (run (newMemStorage 0) callsCompleted) 1) = Some (Some 6) \<and>
   list_ex (accepts 1) (history (newMemStorage 0) callsCompleted) \<and>
   map_option cancelledAt (getRide (run (newMemStorage 0) callsCompleted) 1) = Some None \<and>
   \<not> list_ex (cancels 1) (history (newMemStorage 0) callsCompleted) \<and>
   map_option status (getRide (run (newMemStorage 0) callsDeclined) 1) = Some ''cancelled'' \<and>
   map_option acceptedAt (getRide (run (newMemStorage 0) callsDeclined) 1) = Some None \<and>
   \<not> list_ex (accepts 1) (history (newMemStorage 0) callsDeclined) \<and>
   map_option cancelledAt (getRide (run (newMemStorage 0) callsDeclined) 1) = Some (Some 6) \<and>
   list_ex (cancels 1) (history (newMemStorage 0) callsDeclined)"
proof -
  obtain r where r: "getRide (run (newMemStorage 0) callsCompleted) 1 = Some r"
    and rv: "status r = ''completed''" "acceptedAt r = Some 6" "cancelledAt r = None"
    by (simp add: callsCompleted_def eval_defs)
  obtain x where x: "getRide (run (newMemStorage 0) callsDeclined) 1 = Some x"
    and xv: "status x = ''cancelled''" "acceptedAt x = None" "cancelledAt x = Some 6"
    by (simp add: callsDeclined_def eval_defs)
  from ride_status_and_timestamps [OF r] rv
  have "list_ex (accepts 1) (history (newMemStorage 0) callsCompleted)"
    "\<not> list_ex (cancels 1) (history (newMemStorage 0) callsCompleted)"
    by (simp_all add: list_ex_iff)
  moreover from ride_status_and_timestamps [OF x] xv
  have "\<not> list_ex (accepts 1) (history (newMemStorage 0) callsDeclined)"
    "list_ex (cancels 1) (history (newMemStorage 0) callsDeclined)"
    by (simp_all add: list_ex_iff)
  ultimately show ?thesis using r rv x xv by simp
qed

subsection \<open>Ride history of a user\<close>

lemma slice_from_0:
  "slice xs 0 l = (if 0 \<le> l then take (nat l) xs else take (length xs - nat (- l)) xs)"
proof (cases "0 \<le> l")
  case True
  then have "nat (min l (int (length xs))) = min (nat l) (length xs)" by simp
  with True show ?thesis by (simp add: slice_def min_def)
next
  case False
  then have "nat (max (int (length xs) + l) 0) = length xs - nat (- l)" by simp
  with False show ?thesis by (simp add: slice_def)
qed

lemma sorted_desc_sort_key:
  "sorted_wrt (\<lambda>a b. requestedTime b \<le> requestedTime a)
     (sort_key (\<lambda>r. - requestedTime r) xs)"
proof -
  have "sorted (map (\<lambda>r. - requestedTime r) (sort_key (\<lambda>r. - requestedTime r) xs))"
    by (rule sorted_sort_key)
  then show ?thesis by (simp add: sorted_map)
qed

text \<open>
  Claim C8, amended. \<open>getUserRides(U, L)\<close> leaves the store as it is. There is a list
  \<open>ys\<close> that holds exactly the rides of the store in which \<open>U\<close> is passenger or driver
  and that is ordered by requested time, latest first (a ride without \<open>requestedAt\<close>
  counts as time 0), such that the result is the first \<open>L\<close> elements of \<open>ys\<close> for every
  limit \<open>L \<ge> 0\<close>, the first 10 when the limit is left out, and \<open>ys\<close> without its last
  \<open>-L\<close> elements for every limit \<open>L < 0\<close>.
\<close>

theorem getUserRides_prefix:
  "\<exists>ys. mset ys =
          mset (filter (\<lambda>r. passengerId r = Val u \<or> driverId r = Val u)
                  (map snd (ridesMap s))) \<and>
        sorted_wrt (\<lambda>a b. requestedTime b \<le> requestedTime a) ys \<and>
        (\<forall>l. 0 \<le> l \<longrightarrow> fst (getUserRides s u (Some l)) = take (nat l) ys) \<and>
        (\<forall>l. l < 0 \<longrightarrow> fst (getUserRides s u (Some l)) = take (length ys - nat (- l)) ys) \<and>
        fst (getUserRides s u None) = take 10 ys \<and>
        (\<forall>l. snd (getUserRides s u l) = s)"
proof -
  let ?ys = "sort_key (\<lambda>r. - requestedTime r)
      (filter (\<lambda>r. passengerId r = Val u \<or> driverId r = Val u) (map snd (ridesMap s)))"
  have "mset ?ys =
      mset (filter (\<lambda>r. passengerId r = Val u \<or> driverId r = Val u) (map snd (ridesMap s)))"
    by simp
  moreover have "sorted_wrt (\<lambda>a b. requestedTime b \<le> requestedTime a) ?ys"
    by (rule sorted_desc_sort_key)
  moreover have "fst (getUserRides s u (Some l)) = take (nat l) ?ys" if "0 \<le> l" for l
    using that by (simp add: getUserRides_def slice_from_0)
  moreover have "fst (getUserRides s u (Some l)) = take (length ?ys - nat (- l)) ?ys"
    if "l < 0" for l
    using that by (simp add: getUserRides_def slice_from_0)
  moreover have "fst (getUserRides s u None) = take 10 ?ys"
    by (simp add: getUserRides_def slice_from_0)
  moreover have "snd (getUserRides s u l) = s" for l
    by (simp add: getUserRides_def)
  ultimately show ?thesis by blast
qed

text \<open>
  Claim C8, as the spec states it for every limit, fails for a negative limit:
  \<open>slice(0, limit)\<close> then counts the end index from the end of the array. User 1 is the
  passenger of rides 1 and 2; with limit \<open>-1\<close> the result is not truncated to the first
  \<open>-1\<close> elements (no ride at all) but holds ride 2, the sorted list without its last
  element.
\<close>

theorem getUserRides_negative_limit_counterexample:
  "map ride_id (fst (getUserRides (run (newMemStorage 0) callsTwoRides) 1 (Some (- 1)))) = [2]"
  by (simp add: callsTwoRides_def getUserRides_def slice_def requestedTime_def eval_defs)

text \<open>
  Witness for C8 (amended): for user 1 of that store the limit 5 gives rides 2 and 1,
  latest first; the limits 1 and \<open>-1\<close> give one ride each; the default limit gives
  both; the store is unchanged.
\<close>

theorem getUserRides_prefix_witness:
  "map ride_id (fst (getUserRides (run (newMemStorage 0) callsTwoRides) 1 (Some 5))) = [2, 1] \<and>
   length (fst (getUserRides (run (newMemStorage 0) callsTwoRides) 1 (Some 1))) = 1 \<and>
   length (fst (getUserRides (run (newMemStorage 0) callsTwoRides) 1 (Some (- 1)))) = 1 \<and>
   length (fst (getUserRides (run (newMemStorage 0) callsTwoRides) 1 None)) = 2 \<and>
   snd (getUserRides (run (newMemStorage 0) callsTwoRides) 1 (Some 1)) =
     run (newMemStorage 0) callsTwoRides"
proof -
  let ?s = "run (newMemStorage 0) callsTwoRides"
  from getUserRides_prefix [of 1 ?s] obtain ys where
    m: "mset ys = mset (filter (\<lambda>r. passengerId r = Val 1 \<or> driverId r = Val 1)
          (map snd (ridesMap ?s)))"
    and pos: "\<And>l. 0 \<le> l \<Longrightarrow> fst (getUserRides ?s 1 (Some l)) = take (nat l) ys"
    and neg: "\<And>l. l < 0 \<Longrightarrow> fst (getUserRides ?s 1 (Some l)) = take (length ys - nat (- l)) ys"
    and dflt: "fst (getUserRides ?s 1 None) = take 10 ys"
    and same: "\<And>l. snd (getUserRides ?s 1 l) = ?s"
    by blast
  have "length (filter (\<lambda>r. passengerId r = Val 1 \<or> driverId r = Val 1)
      (map snd (ridesMap ?s))) = 2"
    by (simp add: callsTwoRides_def eval_defs)
  with m have len: "length ys = 2" by (metis size_mset)
  have all: "map ride_id (fst (getUserRides ?s 1 (Some 5))) = [2, 1]"
    by (simp add: callsTwoRides_def getUserRides_def slice_def requestedTime_def eval_defs)
  from pos [of 1] neg [of "- 1"] dflt len same [of "Some 1"] all show ?thesis by simp
qed

subsection \<open>The seeded user and user ids\<close>

lemma userIdCounter_exec:
  "userIdCounter (exec s c) = userIdCounter s + (if isCreateUser c then 1 else 0)"
  by (cases c)
    (simp_all add: createUser_def updateUser_def updateUserStatus_def createVehicle_def
      updateVehicle_def createRating_def ride_ops Let_def split: option.split)

lemma userIdCounter_run:
  "userIdCounter (run s cs) = userIdCounter s + int (length (filter isCreateUser cs))"
  by (induction cs arbitrary: s) (simp_all add: userIdCounter_exec)

text \<open>
  Claim C10. A freshly constructed store is not empty: the constructor's \<open>createUser\<close>
  call stores the user \<open>test\<close> under id 1, so \<open>getUserByUsername("test")\<close> finds a
  user, with id 1, and the first user created on the fresh store gets id 2. After any
  sequence of calls on the fresh store, the next created user gets id 2 plus the number
  of \<open>createUser\<close> calls of the sequence, and is stored under that id: ids grow by
  exactly 1 per creation.
\<close>

theorem seeded_store_user_ids:
  "map_option user_id (getUserByUsername (newMemStorage t0) ''test'') = Some 1 \<and>
   map_option user.username (getUser (newMemStorage t0) 1) = Some ''test'' \<and>
   user_id (fst (createUser (newMemStorage t0) userData now)) = 2 \<and>
   user_id (fst (createUser (run (newMemStorage t0) cs) userData now)) =
     2 + int (length (filter isCreateUser cs)) \<and>
   getUser (snd (createUser (run (newMemStorage t0) cs) userData now))
       (2 + int (length (filter isCreateUser cs))) =
     Some (fst (createUser (run (newMemStorage t0) cs) userData now))"
proof -
  have c0: "userIdCounter (newMemStorage t0) = 2"
    by (simp add: newMemStorage_def createUser_def emptyStorage_def Let_def)
  have seed: "map_option user_id (getUserByUsername (newMemStorage t0) ''test'') = Some 1"
    "map_option user.username (getUser (newMemStorage t0) 1) = Some ''test''"
    by (simp_all add: newMemStorage_def createUser_def emptyStorage_def Let_def
        getUserByUsername_def getUser_def testUser_def)
  have next_id: "user_id (fst (createUser s userData now)) = userIdCounter s"
    "getUser (snd (createUser s userData now)) (userIdCounter s) =
       Some (fst (createUser s userData now))" for s
    by (simp_all add: createUser_def Let_def getUser_def map_of_update_same)
  from userIdCounter_run [of "newMemStorage t0" cs] c0
  have cnt: "userIdCounter (run (newMemStorage t0) cs) =
      2 + int (length (filter isCreateUser cs))" by simp
  from next_id [of "newMemStorage t0"] c0
  have "user_id (fst (createUser (newMemStorage t0) userData now)) = 2" by simp
  with seed next_id [of "run (newMemStorage t0) cs"] cnt show ?thesis by simp
qed

text \<open>
  Witness for C10: after two registrations, a status update and a ride request on the
  fresh store, the next user gets id 4.
\<close>

theorem seeded_store_user_ids_witness:
  "user_id (fst (createUser
       (run (newMemStorage 0)
          [CreateUser (exampleUser ''maria'') 3, UpdateUserStatus 2 False,
           CreateRide (rideRequest (Val 1) Undefined) 5, CreateUser (exampleUser ''joao'') 6])
       (exampleUser ''ana'') 9)) = 4"
  using seeded_store_user_ids [of 0 "exampleUser ''ana''" 9
      "[CreateUser (exampleUser ''maria'') 3, UpdateUserStatus 2 False,
        CreateRide (rideRequest (Val 1) Undefined) 5, CreateUser (exampleUser ''joao'') 6]"]
  by simp

end
